theory Spec2Isabelle
  imports Complex_Main "HOL-Library.Multiset"
begin

section \<open>The high-score service of the asteroids game\<close>

text \<open>
  The service is one HTTP handler, \<^verbatim>\<open>highscore-cloudrun-service/main.py\<close>. It keeps a
  leaderboard as one JSON text in a storage bucket: \<^verbatim>\<open>/\<close> returns the text, a
  \<^verbatim>\<open>POST /submit\<close> validates a name and a score, inserts an entry, sorts, keeps the first
  ten entries and writes the text back.

  The handlers are embedded as functions from the request and the bucket's state to
  either the exception that leaves the handler (\<open>Inl\<close>) or the response together with
  the bucket's new state (\<open>Inr\<close>).
\<close>

subsection \<open>Python values\<close>

text \<open>
  A Python \<^verbatim>\<open>float\<close> (or \<^verbatim>\<open>int\<close>) is the number it denotes, or one of the three
  special values of IEEE 754. Comparisons are Python's: every comparison with
  \<open>NaN\<close> is false.
\<close>

datatype pyfloat = Finite rat | PosInf | NegInf | NaN

fun flt :: "pyfloat \<Rightarrow> pyfloat \<Rightarrow> bool" where
  "flt NaN y = False"
| "flt x NaN = False"
| "flt PosInf y = False"
| "flt x NegInf = False"
| "flt NegInf y = True"
| "flt x PosInf = True"
| "flt (Finite a) (Finite b) = (a < b)"

definition fle :: "pyfloat \<Rightarrow> pyfloat \<Rightarrow> bool" where
  "fle x y = (x \<noteq> NaN \<and> y \<noteq> NaN \<and> \<not> flt y x)"

fun fneg :: "pyfloat \<Rightarrow> pyfloat" where
  "fneg (Finite a) = Finite (- a)"
| "fneg PosInf = NegInf"
| "fneg NegInf = PosInf"
| "fneg NaN = NaN"

text \<open>
  What \<^verbatim>\<open>json.loads\<close> returns and \<^verbatim>\<open>json.dumps\<close> takes. A dict is the list of its items,
  each key once. A string is the list of its characters, the units that \<^verbatim>\<open>len\<close> counts.
\<close>

datatype json =
    JNull
  | JBool bool
  | JNum pyfloat
  | JStr string
  | JArr "json list"
  | JObj "(string \<times> json) list"

text \<open>The exceptions that can leave the handlers.\<close>

datatype exn =
    KeyError
  | ValueError
  | TypeError
  | AttributeError
  | RuntimeError
  | JSONDecodeError
  | NotFound
  | StorageError

subsection \<open>The library the handlers call\<close>

text \<open>
  The handlers call \<^verbatim>\<open>float\<close>, \<^verbatim>\<open>round\<close>, \<^verbatim>\<open>json.loads\<close> and \<^verbatim>\<open>json.dumps\<close>. What these
  do on binary floating-point numbers and on JSON text is not part of the repository, so
  that part is a parameter of the model:
  \<^item> \<open>float_literal\<close>: \<^verbatim>\<open>float(s)\<close> on every string that is not one of the plain
    spellings handled by \<open>py_float\<close> below (\<open>None\<close> is \<^verbatim>\<open>ValueError\<close>);
  \<^item> \<open>round_tenths\<close>: \<^verbatim>\<open>round(x, 1)\<close> on a finite \<open>x\<close> that is not a whole number;
  \<^item> \<open>json_loads\<close> and \<open>json_dumps\<close>, between the text \<open>'t\<close> of the stored object and
    JSON values (\<open>None\<close> is \<^verbatim>\<open>JSONDecodeError\<close>).
  Every theorem on the handlers holds for every such library. The functions of the
  \<^verbatim>\<open>json\<close> module themselves are written out further down, for the theorem on the text
  that is stored.
\<close>

record 't runtime =
  float_literal :: "string \<Rightarrow> pyfloat option"
  round_tenths :: "rat \<Rightarrow> rat"
  json_loads :: "'t \<Rightarrow> json option"
  json_dumps :: "json \<Rightarrow> 't"

definition lower :: "char \<Rightarrow> char" where
  "lower c =
    (case map_of (zip ''ABCDEFGHIJKLMNOPQRSTUVWXYZ'' ''abcdefghijklmnopqrstuvwxyz'') c of
       None \<Rightarrow> c
     | Some l \<Rightarrow> l)"

definition is_digit :: "char \<Rightarrow> bool" where
  "is_digit c = (let n = (of_char c :: nat) in 48 \<le> n \<and> n \<le> 57)"

definition decimal :: "string \<Rightarrow> nat" where
  "decimal ds = foldl (\<lambda>n c. 10 * n + (of_char c - 48)) 0 ds"

text \<open>
  \<^verbatim>\<open>float(s)\<close>. After an optional sign, \<^verbatim>\<open>nan\<close>, \<^verbatim>\<open>inf\<close> and \<^verbatim>\<open>infinity\<close> in any case are
  the special values, and up to fifteen decimal digits are a whole number that a double
  holds exactly. Every other string is left to \<open>float_literal\<close>.
\<close>

definition py_float :: "'t runtime \<Rightarrow> string \<Rightarrow> pyfloat option" where
  "py_float lib s =
    (let negative = (s \<noteq> [] \<and> hd s = CHR ''-'');
         digits = (if s \<noteq> [] \<and> (hd s = CHR ''-'' \<or> hd s = CHR ''+'') then tl s else s);
         word = map lower digits
     in if word = ''nan'' then Some NaN
        else if word = ''inf'' \<or> word = ''infinity''
          then Some (if negative then NegInf else PosInf)
        else if digits \<noteq> [] \<and> length digits \<le> 15 \<and> list_all is_digit digits
          then Some (Finite (if negative then - of_nat (decimal digits) else of_nat (decimal digits)))
        else float_literal lib s)"

text \<open>
  \<^verbatim>\<open>round(x, 1)\<close>: the special values and the whole numbers round to themselves.
\<close>

definition py_round :: "'t runtime \<Rightarrow> pyfloat \<Rightarrow> pyfloat" where
  "py_round lib x =
    (case x of
       Finite q \<Rightarrow> if of_int \<lfloor>q\<rfloor> = q then Finite q else Finite (round_tenths lib q)
     | _ \<Rightarrow> x)"

subsection \<open>Requests, responses and the bucket\<close>

text \<open>
  Of the request the handlers read \<^verbatim>\<open>path\<close>, \<^verbatim>\<open>method\<close> (here \<open>http_method\<close>) and
  \<^verbatim>\<open>args\<close>. In Flask, \<^verbatim>\<open>args\<close> holds the parameters of the URL's query string and \<^verbatim>\<open>form\<close>
  those of a form-encoded body; \<^verbatim>\<open>args["name"]\<close> raises a \<^verbatim>\<open>KeyError\<close> when the query string
  has no such parameter.
\<close>

record request =
  path :: string
  http_method :: string
  args :: "string \<rightharpoonup> string"
  form :: "string \<rightharpoonup> string"

text \<open>
  A response is the triple the handlers return: body, status and headers. The body is
  a string of the program, the text of the stored object, or a list that the framework
  serialises.
\<close>

datatype 't body = Str string | Text 't | Json json

type_synonym 't response = "'t body \<times> nat \<times> (string \<times> string) list"

text \<open>
  The object \<^verbatim>\<open>highscores.json\<close> of the bucket \<^verbatim>\<open>asteroids-highscores\<close>: its text
  (\<open>None\<close> when the object does not exist), whether the store can be reached, whether it
  refuses uploads, and how many uploads it has taken. A download raises when the store
  cannot be reached or the object does not exist, an upload when the store cannot be
  reached or refuses it.
\<close>

record 't storage =
  object_text :: "'t option"
  unreachable :: bool
  upload_denied :: bool
  uploads :: nat

definition headers :: "(string \<times> string) list" where
  "headers = [(''Access-Control-Allow-Origin'', ''*'')]"

subsection \<open>The storage gateway\<close>

definition read_storage :: "'t storage \<Rightarrow> exn + 't" where
  "read_storage st =
    (if unreachable st then Inl StorageError
     else case object_text st of None \<Rightarrow> Inl NotFound | Some text \<Rightarrow> Inr text)"

definition write_storage :: "'t runtime \<Rightarrow> json \<Rightarrow> 't storage \<Rightarrow> exn + 't storage" where
  "write_storage lib data st =
    (let text = json_dumps lib data
     in if unreachable st \<or> upload_denied st then Inl StorageError
        else Inr (st\<lparr>object_text := Some text, uploads := Suc (uploads st)\<rparr>))"

subsection \<open>The handlers\<close>

definition list_highscores :: "'t storage \<Rightarrow> exn + ('t response \<times> 't storage)" where
  "list_highscores st =
    (case read_storage st of
       Inl e \<Rightarrow> Inl e
     | Inr data \<Rightarrow> Inr ((Text data, 200, headers), st))"

text \<open>
  The \<^verbatim>\<open>try\<close> block of \<^verbatim>\<open>submit\<close>: the validated name and the rounded score, or the
  exception that the bare \<^verbatim>\<open>except\<close> catches. A bare \<^verbatim>\<open>raise\<close> with no active exception
  is a \<^verbatim>\<open>RuntimeError\<close>.
\<close>

definition submit_try :: "'t runtime \<Rightarrow> request \<Rightarrow> exn + (string \<times> pyfloat)" where
  "submit_try lib request =
    (case args request ''name'' of
       None \<Rightarrow> Inl KeyError
     | Some name \<Rightarrow>
         if length name = 0 \<or> length name > 20 then Inl RuntimeError
         else (case args request ''score'' of
           None \<Rightarrow> Inl KeyError
         | Some s \<Rightarrow>
             (case py_float lib s of
                None \<Rightarrow> Inl ValueError
              | Some x \<Rightarrow>
                  let score = py_round lib x
                  in if fle score (Finite 0) \<or> flt (Finite 100000) score then Inl RuntimeError
                     else Inr (name, score))))"

text \<open>The sort key \<^verbatim>\<open>lambda x: -x["score"]\<close>.\<close>

fun neg_score :: "json \<Rightarrow> exn + pyfloat" where
  "neg_score (JObj items) =
    (case map_of items ''score'' of
       None \<Rightarrow> Inl KeyError
     | Some (JNum x) \<Rightarrow> Inr (fneg x)
     | Some (JBool b) \<Rightarrow> Inr (Finite (if b then - 1 else 0))
     | Some _ \<Rightarrow> Inl TypeError)"
| "neg_score _ = Inl TypeError"

text \<open>
  \<^verbatim>\<open>sorted(xs, key=f)\<close>: the keys are computed first, left to right, then the list is
  sorted by \<^verbatim>\<open><\<close> on the keys, stably. On keys that \<^verbatim>\<open><\<close> orders totally every stable
  sort returns the list computed here, by insertion from the right. With a \<open>NaN\<close> among
  the keys of two or more items Python still returns a rearrangement of the list, but
  which one depends on the interpreter's sorting algorithm; no theorem below is about the
  order of such a list.
\<close>

fun keyed :: "('a \<Rightarrow> exn + pyfloat) \<Rightarrow> 'a list \<Rightarrow> exn + (pyfloat \<times> 'a) list" where
  "keyed f [] = Inr []"
| "keyed f (x # xs) =
    (case f x of
       Inl e \<Rightarrow> Inl e
     | Inr k \<Rightarrow> (case keyed f xs of Inl e \<Rightarrow> Inl e | Inr kxs \<Rightarrow> Inr ((k, x) # kxs)))"

fun insort_lt :: "pyfloat \<times> 'a \<Rightarrow> (pyfloat \<times> 'a) list \<Rightarrow> (pyfloat \<times> 'a) list" where
  "insort_lt x [] = [x]"
| "insort_lt x (y # ys) = (if flt (fst y) (fst x) then y # insort_lt x ys else x # y # ys)"

definition py_sorted :: "('a \<Rightarrow> exn + pyfloat) \<Rightarrow> 'a list \<Rightarrow> exn + 'a list" where
  "py_sorted f xs =
    (case keyed f xs of
       Inl e \<Rightarrow> Inl e
     | Inr kxs \<Rightarrow> Inr (map snd (foldr insort_lt kxs [])))"

text \<open>The entry that \<^verbatim>\<open>submit\<close> inserts; \<open>now\<close> is \<^verbatim>\<open>datetime.datetime.now().isoformat()\<close>.\<close>

definition new_entry :: "string \<Rightarrow> pyfloat \<Rightarrow> string \<Rightarrow> json" where
  "new_entry name score now =
    JObj [(''name'', JStr name), (''score'', JNum score), (''timestamp'', JStr now)]"

definition bad_request :: "'t response" where
  "bad_request = (Str ''Bad request'', 400, headers)"

definition submit ::
  "'t runtime \<Rightarrow> string \<Rightarrow> request \<Rightarrow> 't storage \<Rightarrow> exn + ('t response \<times> 't storage)" where
  "submit lib now request st =
    (case submit_try lib request of
       Inl e \<Rightarrow> Inr (bad_request, st)
     | Inr (name, score) \<Rightarrow>
        (case read_storage st of
           Inl e \<Rightarrow> Inl e
         | Inr text \<Rightarrow>
            (case json_loads lib text of
               None \<Rightarrow> Inl JSONDecodeError
             | Some (JArr data) \<Rightarrow>
                (case py_sorted neg_score (new_entry name score now # data) of
                   Inl e \<Rightarrow> Inl e
                 | Inr sorted_data \<Rightarrow>
                    (case write_storage lib (JArr (take 10 sorted_data)) st of
                       Inl e \<Rightarrow> Inl e
                     | Inr st' \<Rightarrow> Inr ((Json (JArr (take 10 sorted_data)), 200, headers), st')))
             | Some _ \<Rightarrow> Inl AttributeError)))"

definition main ::
  "'t runtime \<Rightarrow> string \<Rightarrow> request \<Rightarrow> 't storage \<Rightarrow> exn + ('t response \<times> 't storage)" where
  "main lib now request st =
    (if path request = ''/'' then list_highscores st
     else if path request = ''/submit'' \<and> http_method request = ''POST'' then submit lib now request st
     else Inr (bad_request, st))"

subsection \<open>Scores of entries\<close>

text \<open>
  The score of an entry: the number in its \<^verbatim>\<open>"score"\<close> field, read from the entry itself
  and not through the sort key. Python counts \<^verbatim>\<open>True\<close> as 1 and \<^verbatim>\<open>False\<close> as 0; an entry
  with no \<^verbatim>\<open>"score"\<close> field, or with one that is not a number, has no score.
\<close>

definition score_of :: "json \<Rightarrow> pyfloat option" where
  "score_of e =
    (case e of
       JObj items \<Rightarrow>
         (case map_of items ''score'' of
            Some (JNum x) \<Rightarrow> Some x
          | Some (JBool b) \<Rightarrow> Some (Finite (if b then 1 else 0))
          | _ \<Rightarrow> None)
     | _ \<Rightarrow> None)"

text \<open>An entry whose score is a number, not \<open>NaN\<close>.\<close>

definition numeric_score :: "json \<Rightarrow> bool" where
  "numeric_score e = (case score_of e of None \<Rightarrow> False | Some x \<Rightarrow> x \<noteq> NaN)"

text \<open>Python's \<^verbatim>\<open>a["score"] >= b["score"]\<close> and \<^verbatim>\<open>a["score"] > b["score"]\<close>.\<close>

definition score_ge :: "json \<Rightarrow> json \<Rightarrow> bool" where
  "score_ge a b =
    (case (score_of a, score_of b) of (Some x, Some y) \<Rightarrow> fle y x | _ \<Rightarrow> False)"

definition score_gt :: "json \<Rightarrow> json \<Rightarrow> bool" where
  "score_gt a b =
    (case (score_of a, score_of b) of (Some x, Some y) \<Rightarrow> flt y x | _ \<Rightarrow> False)"

subsection \<open>The json module\<close>

text \<open>
  \<^verbatim>\<open>json.dumps(data)\<close> and \<^verbatim>\<open>json.loads(text)\<close> as the handlers call them, with no
  argument but the data: the defaults of the \<^verbatim>\<open>json\<close> module apply. They are written
  here after the module's documentation and its decoder, for texts and strings whose
  characters are below 256, the characters of \<open>string\<close>.

  \<^verbatim>\<open>json.dumps\<close>: \<^verbatim>\<open>ensure_ascii\<close> is on, so inside a string the quote and the backslash
  are escaped with a backslash, backspace, form feed, newline, carriage return and tab
  are written \<^verbatim>\<open>\b \f \n \r \t\<close>, and every other character outside the range from the
  space to \<^verbatim>\<open>~\<close> is written \<^verbatim>\<open>\u00XY\<close> with lower-case hexadecimal digits.
\<close>

definition quote :: char where
  "quote = CHR 0x22"

definition backslash :: char where
  "backslash = CHR 0x5C"

definition hex_digit :: "nat \<Rightarrow> char" where
  "hex_digit d = ''0123456789abcdef'' ! d"

definition escape_char :: "char \<Rightarrow> string" where
  "escape_char c =
    (if c = quote then [backslash, quote]
     else if c = backslash then [backslash, backslash]
     else if c = CHR 0x08 then [backslash, CHR ''b'']
     else if c = CHR 0x0C then [backslash, CHR ''f'']
     else if c = CHR 0x0A then [backslash, CHR ''n'']
     else if c = CHR 0x0D then [backslash, CHR ''r'']
     else if c = CHR 0x09 then [backslash, CHR ''t'']
     else if (of_char c :: nat) < 32 \<or> 126 < (of_char c :: nat)
       then [backslash, CHR ''u'', CHR ''0'', CHR ''0'',
             hex_digit (of_char c div 16), hex_digit (of_char c mod 16)]
     else [c])"

definition json_escape :: "string \<Rightarrow> string" where
  "json_escape s = concat (map escape_char s)"

definition quoted :: "string \<Rightarrow> string" where
  "quoted s = quote # json_escape s @ [quote]"

text \<open>
  Between two items come a comma and a space, after a key a colon and a space;
  \<^verbatim>\<open>allow_nan\<close> is on, so the special values are written \<^verbatim>\<open>NaN\<close>, \<^verbatim>\<open>Infinity\<close> and \<^verbatim>\<open>-Infinity\<close>. A finite number
  is written by \<^verbatim>\<open>float.__repr__\<close> or \<^verbatim>\<open>int.__repr__\<close>; the digits that a binary
  floating-point number prints are not part of the repository, so \<open>number_repr\<close> is a
  parameter.
\<close>

fun join_comma :: "string list \<Rightarrow> string" where
  "join_comma [] = []"
| "join_comma [x] = x"
| "join_comma (x # y # ys) = x @ '', '' @ join_comma (y # ys)"

fun py_json_dumps :: "(rat \<Rightarrow> string) \<Rightarrow> json \<Rightarrow> string" where
  "py_json_dumps number_repr JNull = ''null''"
| "py_json_dumps number_repr (JBool b) = (if b then ''true'' else ''false'')"
| "py_json_dumps number_repr (JNum x) =
    (case x of
       Finite q \<Rightarrow> number_repr q
     | PosInf \<Rightarrow> ''Infinity''
     | NegInf \<Rightarrow> ''-Infinity''
     | NaN \<Rightarrow> ''NaN'')"
| "py_json_dumps number_repr (JStr s) = quoted s"
| "py_json_dumps number_repr (JArr xs) =
    ''['' @ join_comma (map (py_json_dumps number_repr) xs) @ '']''"
| "py_json_dumps number_repr (JObj items) =
    ''{'' @ join_comma
      (map (\<lambda>item. quoted (fst item) @ '': '' @ py_json_dumps number_repr (snd item)) items) @ ''}''"

text \<open>
  \<^verbatim>\<open>json.loads\<close>, the decoder. A string ends at the next quote that is not escaped; after
  a backslash come the quote, the backslash, the slash, one of \<^verbatim>\<open>b f n r t\<close>, or \<^verbatim>\<open>u\<close>
  and four hexadecimal digits; a
  control character that is not escaped is an error. An escape \<^verbatim>\<open>\uXXXX\<close> of a character
  from 256 on has no value in \<open>string\<close> and is an error here.
\<close>

definition hex_value :: "char \<Rightarrow> nat option" where
  "hex_value c =
    map_of (zip ''0123456789abcdefABCDEF''
      [0, 1, 2, 3, 4, 5, 6, 7, 8, 9, 10, 11, 12, 13, 14, 15, 10, 11, 12, 13, 14, 15]) c"

definition unescape :: "char \<Rightarrow> char option" where
  "unescape e =
    map_of [(quote, quote), (backslash, backslash), (CHR ''/'', CHR ''/''),
      (CHR ''b'', CHR 0x08), (CHR ''f'', CHR 0x0C), (CHR ''n'', CHR 0x0A),
      (CHR ''r'', CHR 0x0D), (CHR ''t'', CHR 0x09)] e"

definition decode_u :: "string \<Rightarrow> char option" where
  "decode_u hs =
    (case map hex_value hs of
       [Some a, Some b, Some c, Some d] \<Rightarrow>
         if a = 0 \<and> b = 0 then Some (char_of (16 * c + d)) else None
     | _ \<Rightarrow> None)"

text \<open>\<open>scanstring\<close> starts after the opening quote and returns the string and what follows it.\<close>

fun scanstring :: "string \<Rightarrow> (string \<times> string) option" where
  "scanstring [] = None"
| "scanstring (c # cs) =
    (if c = quote then Some ([], cs)
     else if c = backslash then
       (case cs of
          [] \<Rightarrow> None
        | e # es \<Rightarrow>
            if e = CHR ''u'' then
              (case decode_u (take 4 es) of
                 None \<Rightarrow> None
               | Some ch \<Rightarrow>
                   (case scanstring (drop 4 es) of
                      None \<Rightarrow> None
                    | Some (str, rest) \<Rightarrow> Some (ch # str, rest)))
            else
              (case unescape e of
                 None \<Rightarrow> None
               | Some ch \<Rightarrow>
                   (case scanstring es of
                      None \<Rightarrow> None
                    | Some (str, rest) \<Rightarrow> Some (ch # str, rest))))
     else if (of_char c :: nat) < 32 then None
     else (case scanstring cs of
             None \<Rightarrow> None
           | Some (str, rest) \<Rightarrow> Some (c # str, rest)))"

text \<open>White space is the space, the tab, the newline and the carriage return.\<close>

definition is_ws :: "char \<Rightarrow> bool" where
  "is_ws c = (c = CHR '' '' \<or> c = CHR 0x09 \<or> c = CHR 0x0A \<or> c = CHR 0x0D)"

definition skip_ws :: "string \<Rightarrow> string" where
  "skip_ws s = dropWhile is_ws s"

text \<open>
  A number is the longest text of the form
  \<^verbatim>\<open>(-?(?:0|[1-9][0-9]*))(\.[0-9]+)?([eE][-+]?[0-9]+)?\<close>: the integer part, then the
  fraction and the exponent when they are there. \<open>scan_number\<close> returns the integer part,
  fraction and exponent together, and what follows the number. With no fraction and no
  exponent the value is \<^verbatim>\<open>int(integer)\<close>, otherwise \<^verbatim>\<open>float\<close> of the whole text.
\<close>

definition int_part :: "string \<Rightarrow> (string \<times> string) option" where
  "int_part s =
    (let sign = (if s \<noteq> [] \<and> hd s = CHR ''-'' then ''-'' else []);
         s1 = drop (length sign) s
     in case s1 of
          [] \<Rightarrow> None
        | d # ds \<Rightarrow>
            if d = CHR ''0'' then Some (sign @ [d], ds)
            else if is_digit d then Some (sign @ d # takeWhile is_digit ds, dropWhile is_digit ds)
            else None)"

definition frac_part :: "string \<Rightarrow> string \<times> string" where
  "frac_part s =
    (case s of
       [] \<Rightarrow> ([], s)
     | c # cs \<Rightarrow>
         if c = CHR ''.'' \<and> takeWhile is_digit cs \<noteq> []
         then (c # takeWhile is_digit cs, dropWhile is_digit cs)
         else ([], s))"

definition exp_part :: "string \<Rightarrow> string \<times> string" where
  "exp_part s =
    (case s of
       [] \<Rightarrow> ([], s)
     | c # cs \<Rightarrow>
         if c = CHR ''e'' \<or> c = CHR ''E'' then
           (let sign = (if cs \<noteq> [] \<and> (hd cs = CHR ''-'' \<or> hd cs = CHR ''+'') then [hd cs] else []);
                ds = drop (length sign) cs
            in if takeWhile is_digit ds = [] then ([], s)
               else (c # sign @ takeWhile is_digit ds, dropWhile is_digit ds))
         else ([], s))"

definition scan_number :: "string \<Rightarrow> (string \<times> string \<times> string) option" where
  "scan_number s =
    (case int_part s of
       None \<Rightarrow> None
     | Some (integer, s1) \<Rightarrow>
         (case frac_part s1 of
            (fraction, s2) \<Rightarrow>
              (case exp_part s2 of (exponent, rest) \<Rightarrow> Some (integer, fraction @ exponent, rest))))"

definition py_int :: "string \<Rightarrow> pyfloat" where
  "py_int integer =
    (if integer \<noteq> [] \<and> hd integer = CHR ''-'' then Finite (- of_nat (decimal (tl integer)))
     else Finite (of_nat (decimal integer)))"

definition number_value :: "'t runtime \<Rightarrow> string \<Rightarrow> string \<Rightarrow> pyfloat option" where
  "number_value lib integer frac_exp =
    (if frac_exp = [] then Some (py_int integer) else py_float lib (integer @ frac_exp))"

text \<open>
  An object is read as the list of its pairs and then made a \<^verbatim>\<open>dict\<close>: a key that comes
  twice keeps its first place and its last value.
\<close>

fun dict :: "(string \<times> json) list \<Rightarrow> (string \<times> json) list" where
  "dict [] = []"
| "dict ((k, v) # pairs) =
    (case map_of (rev pairs) k of
       None \<Rightarrow> (k, v) # dict (filter (\<lambda>p. fst p \<noteq> k) pairs)
     | Some v' \<Rightarrow> (k, v') # dict (filter (\<lambda>p. fst p \<noteq> k) pairs))"

text \<open>
  The scanner: \<open>parse_value\<close> reads one value at the start of the text, \<open>parse_array\<close>
  the items after \<^verbatim>\<open>[\<close> and \<open>parse_object\<close> the pairs after \<^verbatim>\<open>{\<close>, each returning what
  follows. The first argument after the library bounds the depth of the recursion;
  \<open>py_json_loads\<close> starts with more than the length of the text, and the theorem on the
  round trip shows that the leaderboard is read within this bound. \<^verbatim>\<open>json.loads\<close> skips
  the white space around the value and refuses a text with anything else after it.
\<close>

fun parse_value :: "'t runtime \<Rightarrow> nat \<Rightarrow> string \<Rightarrow> (json \<times> string) option"
  and parse_array :: "'t runtime \<Rightarrow> nat \<Rightarrow> string \<Rightarrow> (json list \<times> string) option"
  and parse_object :: "'t runtime \<Rightarrow> nat \<Rightarrow> string \<Rightarrow> ((string \<times> json) list \<times> string) option"
where
  "parse_value lib 0 s = None"
| "parse_value lib (Suc n) s =
    (case s of
       [] \<Rightarrow> None
     | c # cs \<Rightarrow>
         if c = quote then
           (case scanstring cs of None \<Rightarrow> None | Some (str, rest) \<Rightarrow> Some (JStr str, rest))
         else if c = CHR ''{'' then
           (case skip_ws cs of
              [] \<Rightarrow> None
            | d # ds \<Rightarrow>
                if d = CHR ''}'' then Some (JObj [], ds)
                else (case parse_object lib n (d # ds) of
                        None \<Rightarrow> None
                      | Some (pairs, rest) \<Rightarrow> Some (JObj (dict pairs), rest)))
         else if c = CHR ''['' then
           (case skip_ws cs of
              [] \<Rightarrow> None
            | d # ds \<Rightarrow>
                if d = CHR '']'' then Some (JArr [], ds)
                else (case parse_array lib n (d # ds) of
                        None \<Rightarrow> None
                      | Some (values, rest) \<Rightarrow> Some (JArr values, rest)))
         else if take 4 s = ''null'' then Some (JNull, drop 4 s)
         else if take 4 s = ''true'' then Some (JBool True, drop 4 s)
         else if take 5 s = ''false'' then Some (JBool False, drop 5 s)
         else
           (case scan_number s of
              Some (integer, frac_exp, rest) \<Rightarrow>
                (case number_value lib integer frac_exp of
                   None \<Rightarrow> None
                 | Some x \<Rightarrow> Some (JNum x, rest))
            | None \<Rightarrow>
                if take 3 s = ''NaN'' then Some (JNum NaN, drop 3 s)
                else if take 8 s = ''Infinity'' then Some (JNum PosInf, drop 8 s)
                else if take 9 s = ''-Infinity'' then Some (JNum NegInf, drop 9 s)
                else None))"
| "parse_array lib 0 s = None"
| "parse_array lib (Suc n) s =
    (case parse_value lib n s of
       None \<Rightarrow> None
     | Some (v, rest) \<Rightarrow>
         (case skip_ws rest of
            [] \<Rightarrow> None
          | c # cs \<Rightarrow>
              if c = CHR '']'' then Some ([v], cs)
              else if c = CHR '','' then
                (case parse_array lib n (skip_ws cs) of
                   None \<Rightarrow> None
                 | Some (values, rest') \<Rightarrow> Some (v # values, rest'))
              else None))"
| "parse_object lib 0 s = None"
| "parse_object lib (Suc n) s =
    (case s of
       [] \<Rightarrow> None
     | c # cs \<Rightarrow>
         if c \<noteq> quote then None
         else
           (case scanstring cs of
              None \<Rightarrow> None
            | Some (key, rest) \<Rightarrow>
                (case skip_ws rest of
                   [] \<Rightarrow> None
                 | d # ds \<Rightarrow>
                     if d \<noteq> CHR '':'' then None
                     else
                       (case parse_value lib n (skip_ws ds) of
                          None \<Rightarrow> None
                        | Some (v, rest') \<Rightarrow>
                            (case skip_ws rest' of
                               [] \<Rightarrow> None
                             | e # es \<Rightarrow>
                                 if e = CHR ''}'' then Some ([(key, v)], es)
                                 else if e = CHR '','' then
                                   (case parse_object lib n (skip_ws es) of
                                      None \<Rightarrow> None
                                    | Some (pairs, rest'') \<Rightarrow> Some ((key, v) # pairs, rest''))
                                 else None)))))"

definition py_json_loads :: "'t runtime \<Rightarrow> string \<Rightarrow> json option" where
  "py_json_loads lib s =
    (case parse_value lib (Suc (length s)) (skip_ws s) of
       None \<Rightarrow> None
     | Some (v, rest) \<Rightarrow> if skip_ws rest = [] then Some v else None)"

text \<open>The library \<open>lib\<close> with the functions of the \<^verbatim>\<open>json\<close> module, on texts that are strings.\<close>

definition with_json :: "(rat \<Rightarrow> string) \<Rightarrow> 't runtime \<Rightarrow> string runtime" where
  "with_json number_repr lib =
    \<lparr>float_literal = float_literal lib, round_tenths = round_tenths lib,
     json_loads = py_json_loads lib, json_dumps = py_json_dumps number_repr\<rparr>"

text \<open>
  What Python documents of the text of a number: \<^verbatim>\<open>repr\<close> of a finite \<^verbatim>\<open>float\<close> or \<^verbatim>\<open>int\<close>
  is a number of the JSON grammar, and \<^verbatim>\<open>float\<close> or \<^verbatim>\<open>int\<close> of that text is the number
  again. \<open>reads_back number_repr lib x\<close> says so of the number \<open>x\<close>; there is nothing to
  say of the special values, which \<^verbatim>\<open>json.dumps\<close> writes as words.
\<close>

definition reads_back :: "(rat \<Rightarrow> string) \<Rightarrow> 't runtime \<Rightarrow> pyfloat \<Rightarrow> bool" where
  "reads_back number_repr lib x =
    (case x of
       Finite q \<Rightarrow>
         (case scan_number (number_repr q) of
            None \<Rightarrow> False
          | Some (integer, frac_exp, rest) \<Rightarrow>
              rest = [] \<and> number_value lib integer frac_exp = Some (Finite q))
     | _ \<Rightarrow> True)"

subsection \<open>Leaderboards\<close>

text \<open>
  A leaderboard is a sequence of entries, each with a name, a score and a timestamp; as
  data of the program it is the list of the dicts that \<^verbatim>\<open>submit\<close> builds.
\<close>

definition entry_of :: "string \<times> pyfloat \<times> string \<Rightarrow> json" where
  "entry_of row = (case row of (name, score, stamp) \<Rightarrow> new_entry name score stamp)"

definition leaderboard :: "(string \<times> pyfloat \<times> string) list \<Rightarrow> json" where
  "leaderboard rows = JArr (map entry_of rows)"

definition row_text :: "(rat \<Rightarrow> string) \<Rightarrow> string \<times> pyfloat \<times> string \<Rightarrow> string" where
  "row_text number_repr row = py_json_dumps number_repr (entry_of row)"

subsection \<open>Concrete runs\<close>

text \<open>
  To run the handlers on examples: a library in which the text of a document is the
  document itself, no string beyond those of \<open>py_float\<close> is a number, and a number that
  is not whole is left as it is. The examples only use whole scores.
\<close>

definition sample_runtime :: "json runtime" where
  "sample_runtime =
    \<lparr>float_literal = (\<lambda>s. None), round_tenths = (\<lambda>q. q),
     json_loads = Some, json_dumps = (\<lambda>d. d)\<rparr>"

definition sample_bucket :: "json list \<Rightarrow> json storage" where
  "sample_bucket entries =
    \<lparr>object_text = Some (JArr entries), unreachable = False, upload_denied = False, uploads = 0\<rparr>"

definition sample_post :: "string \<Rightarrow> string \<Rightarrow> request" where
  "sample_post name score =
    \<lparr>path = ''/submit'', http_method = ''POST'',
     args = [''name'' \<mapsto> name, ''score'' \<mapsto> score], form = Map.empty\<rparr>"

definition sample_board :: "json list" where
  "sample_board = [new_entry ''A'' (Finite 50) ''t1'', new_entry ''B'' (Finite 40) ''t2'']"

definition sample_full_board :: "json list" where
  "sample_full_board =
    map (\<lambda>s. new_entry ''A'' (Finite s) ''t1'') [100, 90, 80, 70, 60, 50, 40, 30, 20, 10]"

definition sample_unsorted_board :: "json list" where
  "sample_unsorted_board = [new_entry ''B'' (Finite 40) ''t2'', new_entry ''A'' (Finite 90) ''t1'']"

text \<open>
  To run the \<^verbatim>\<open>json\<close> module on examples: the text of a whole number that is not negative
  as \<^verbatim>\<open>repr\<close> writes such a \<^verbatim>\<open>float\<close> of up to sixteen digits, its digits and \<^verbatim>\<open>.0\<close>, and
  \<^verbatim>\<open>float\<close> of such a text.
\<close>

definition in_quotes :: "string \<Rightarrow> string" where
  "in_quotes s = quote # s @ [quote]"

fun digits_of :: "nat \<Rightarrow> string" where
  "digits_of n =
    (if n < 10 then [''0123456789'' ! n]
     else digits_of (n div 10) @ [''0123456789'' ! (n mod 10)])"

declare digits_of.simps [simp del]

definition sample_repr :: "rat \<Rightarrow> string" where
  "sample_repr q = digits_of (nat \<lfloor>q\<rfloor>) @ ''.0''"

definition sample_float_literal :: "string \<Rightarrow> pyfloat option" where
  "sample_float_literal s =
    (if takeWhile is_digit s \<noteq> [] \<and> dropWhile is_digit s = ''.0''
     then Some (Finite (of_nat (decimal (takeWhile is_digit s))))
     else None)"

definition sample_json_runtime :: "string runtime" where
  "sample_json_runtime =
    with_json sample_repr (sample_runtime\<lparr>float_literal := sample_float_literal\<rparr>)"

definition sample_rows :: "(string \<times> pyfloat \<times> string) list" where
  "sample_rows = [(''A'', Finite 50, ''t1''), (''B'', Finite 40, ''t2'')]"

definition sample_text :: string where
  "sample_text =
    ''[{'' @ in_quotes ''name'' @ '': '' @ in_quotes ''A'' @ '', ''
      @ in_quotes ''score'' @ '': 50.0, ''
      @ in_quotes ''timestamp'' @ '': '' @ in_quotes ''t1'' @ ''}, {''
      @ in_quotes ''name'' @ '': '' @ in_quotes ''B'' @ '', ''
      @ in_quotes ''score'' @ '': 40.0, ''
      @ in_quotes ''timestamp'' @ '': '' @ in_quotes ''t2'' @ ''}]''"

definition sample_text_bucket :: "string storage" where
  "sample_text_bucket =
    \<lparr>object_text = Some ''[]'', unreachable = False, upload_denied = False, uploads = 0\<rparr>"

subsection \<open>Ordered keys\<close>

text \<open>Python's \<^verbatim>\<open><=\<close> on the keys of two items of a list being sorted.\<close>

definition keys_le :: "pyfloat \<times> 'a \<Rightarrow> pyfloat \<times> 'a \<Rightarrow> bool" where
  "keys_le p q = fle (fst p) (fst q)"

section \<open>Comparing Python numbers\<close>

lemma flt_irrefl: "\<not> flt x x"
  by (cases x) auto

lemma flt_trans: "flt x y \<Longrightarrow> flt y z \<Longrightarrow> flt x z"
  by (cases x; cases y; cases z) auto

lemma flt_total: "x \<noteq> NaN \<Longrightarrow> y \<noteq> NaN \<Longrightarrow> flt x y \<or> x = y \<or> flt y x"
  by (cases x; cases y) auto

lemma flt_not_NaN: "flt x y \<Longrightarrow> x \<noteq> NaN \<and> y \<noteq> NaN"
  by (cases x; cases y) auto

lemma fneg_fneg: "fneg (fneg x) = x"
  by (cases x) auto

lemma fneg_NaN_iff: "fneg x = NaN \<longleftrightarrow> x = NaN"
  by (cases x) auto

lemma flt_fneg: "flt (fneg x) (fneg y) \<longleftrightarrow> flt y x"
  by (cases x; cases y) auto

lemma fle_fneg: "fle (fneg x) (fneg y) \<longleftrightarrow> fle y x"
  by (auto simp add: fle_def flt_fneg fneg_NaN_iff)

lemma fneg_eq_iff: "fneg x = y \<longleftrightarrow> x = fneg y"
  by (cases x; cases y) auto

section \<open>Sorting by the negated score\<close>

lemma keyed_Inr:
  "keyed f xs = Inr kxs \<Longrightarrow> map snd kxs = xs \<and> (\<forall>p\<in>set kxs. f (snd p) = Inr (fst p))"
  by (induction xs arbitrary: kxs) (auto split: sum.splits)

lemma keyed_total:
  "\<forall>x\<in>set xs. \<exists>k. f x = Inr k \<Longrightarrow> \<exists>kxs. keyed f xs = Inr kxs"
  by (induction xs) (auto split: sum.splits)

lemma insort_lt_split:
  "insort_lt x ys =
     takeWhile (\<lambda>y. flt (fst y) (fst x)) ys @ x # dropWhile (\<lambda>y. flt (fst y) (fst x)) ys"
  by (induction ys) auto

lemma mset_insort_lt: "mset (insort_lt x ys) = add_mset x (mset ys)"
  by (induction ys) auto

lemma mset_foldr_insort_lt: "mset (foldr insort_lt kxs []) = mset kxs"
  by (induction kxs) (auto simp add: mset_insort_lt)

lemma set_foldr_insort_lt: "set (foldr insort_lt kxs []) = set kxs"
  using mset_foldr_insort_lt [of kxs] by (metis set_mset_mset)

lemma sorted_insort_lt:
  assumes "fst x \<noteq> NaN" and "\<forall>p\<in>set ys. fst p \<noteq> NaN" and "sorted_wrt keys_le ys"
  shows "sorted_wrt keys_le (insort_lt x ys)"
  using assms
proof (induction ys)
  case Nil
  then show ?case by simp
next
  case (Cons y ys)
  show ?case
  proof (cases "flt (fst y) (fst x)")
    case True
    have "keys_le y p" if "p \<in> set (insort_lt x ys)" for p
    proof -
      from that have "p = x \<or> p \<in> set ys"
        using mset_insort_lt [of x ys] by (metis insert_iff set_mset_add_mset_insert set_mset_mset)
      then show ?thesis
        using True Cons.prems by (auto simp add: keys_le_def fle_def flt_irrefl dest: flt_trans)
    qed
    then show ?thesis
      using True Cons by simp
  next
    case False
    have "keys_le x y"
      using False Cons.prems by (simp add: keys_le_def fle_def)
    moreover have "keys_le x p" if "p \<in> set ys" for p
    proof -
      have "keys_le y p" using Cons.prems that by simp
      then show ?thesis
        using False Cons.prems that flt_total [of "fst x" "fst y"]
        by (auto simp add: keys_le_def fle_def dest: flt_trans)
    qed
    ultimately show ?thesis
      using False Cons.prems by simp
  qed
qed

lemma sorted_foldr_insort_lt:
  "\<forall>p\<in>set kxs. fst p \<noteq> NaN \<Longrightarrow> sorted_wrt keys_le (foldr insort_lt kxs [])"
  by (induction kxs) (auto simp add: sorted_insort_lt set_foldr_insort_lt)

lemma filter_insort_lt:
  "filter (\<lambda>p. fst p = k) (insort_lt x ys) =
     (if fst x = k then x # filter (\<lambda>p. fst p = k) ys else filter (\<lambda>p. fst p = k) ys)"
  by (induction ys) (auto simp add: flt_irrefl)

lemma filter_foldr_insort_lt:
  "filter (\<lambda>p. fst p = k) (foldr insort_lt kxs []) = filter (\<lambda>p. fst p = k) kxs"
  by (induction kxs) (auto simp add: filter_insort_lt)

lemma numeric_score_key:
  "numeric_score e \<Longrightarrow> \<exists>k. neg_score e = Inr k \<and> k \<noteq> NaN"
  by (cases e)
    (auto simp add: numeric_score_def score_of_def fneg_NaN_iff
      split: option.splits json.splits if_splits)

text \<open>The sort key of an entry is the negation of its score field.\<close>

lemma score_of_key: "neg_score e = Inr k \<Longrightarrow> score_of e = Some (fneg k)"
  by (cases e) (auto simp add: score_of_def fneg_fneg split: option.splits json.splits)

lemma score_of_new_entry: "score_of (new_entry name score now) = Some score"
  by (simp add: score_of_def new_entry_def)

lemma numeric_score_new_entry: "numeric_score (new_entry name score now) \<longleftrightarrow> score \<noteq> NaN"
  by (simp add: numeric_score_def score_of_new_entry)

lemma keyed_Cons_Inr:
  "keyed f (x # xs) = Inr all_keyed \<Longrightarrow>
    \<exists>k kxs. f x = Inr k \<and> keyed f xs = Inr kxs \<and> all_keyed = (k, x) # kxs"
  by (auto split: sum.splits)

lemma submit_valid:
  assumes "submit_try lib request = Inr (name, score)"
    and "read_storage st = Inr text"
    and "json_loads lib text = Some (JArr prior)"
    and "py_sorted neg_score (new_entry name score now # prior) = Inr sorted_data"
    and "\<not> upload_denied st"
  shows "submit lib now request st =
      Inr ((Json (JArr (take 10 sorted_data)), 200, headers),
           st\<lparr>object_text := Some (json_dumps lib (JArr (take 10 sorted_data))),
              uploads := Suc (uploads st)\<rparr>)"
proof -
  have "\<not> unreachable st"
    using assms(2) by (auto simp add: read_storage_def split: if_splits)
  then show ?thesis
    using assms by (simp add: submit_def write_storage_def)
qed

lemma sorted_scores:
  assumes "\<forall>p\<in>set T. neg_score (snd p) = Inr (fst p)" and "sorted_wrt keys_le T"
  shows "sorted_wrt score_ge (map snd T)"
proof -
  have "sorted_wrt (\<lambda>p q. score_ge (snd p) (snd q)) T"
  proof (rule sorted_wrt_mono_rel [OF _ assms(2)])
    fix p q assume "p \<in> set T" "q \<in> set T" "keys_le p q"
    then show "score_ge (snd p) (snd q)"
      using assms(1) by (simp add: score_ge_def score_of_key keys_le_def fle_fneg)
  qed
  then show ?thesis
    by (simp add: sorted_wrt_map)
qed

lemma filter_scores:
  assumes "\<forall>p\<in>set T. neg_score (snd p) = Inr (fst p)"
  shows "filter (\<lambda>e. score_of e = Some c) (map snd T) = map snd (filter (\<lambda>p. fst p = fneg c) T)"
  using assms
proof (induction T)
  case Nil
  then show ?case by simp
next
  case (Cons p T)
  have "(score_of (snd p) = Some c) = (fst p = fneg c)"
    using Cons.prems by (simp add: score_of_key fneg_eq_iff)
  then show ?case
    using Cons by simp
qed

lemma py_sorted_insert:
  assumes "\<forall>e\<in>set (x # xs). numeric_score e"
  shows "\<exists>pre post. py_sorted neg_score (x # xs) = Inr (pre @ x # post)
      \<and> mset (pre @ post) = mset xs
      \<and> (\<forall>e\<in>set pre. score_gt e x)
      \<and> sorted_wrt score_ge (pre @ x # post)
      \<and> (\<forall>c. filter (\<lambda>e. score_of e = Some c) (pre @ x # post)
             = filter (\<lambda>e. score_of e = Some c) (x # xs))"
proof -
  have "\<forall>e\<in>set (x # xs). \<exists>k. neg_score e = Inr k"
    using assms numeric_score_key by blast
  then obtain all_keyed where all_keyed: "keyed neg_score (x # xs) = Inr all_keyed"
    using keyed_total by blast
  from keyed_Cons_Inr [OF this]
  obtain k kxs where k: "neg_score x = Inr k" and kxs: "keyed neg_score xs = Inr kxs"
    and all_eq: "all_keyed = (k, x) # kxs"
    by (elim exE conjE)
  have snd_kxs: "map snd kxs = xs"
    using keyed_Inr [OF kxs] by (rule conjunct1)
  have snd_all: "map snd all_keyed = x # xs"
    using keyed_Inr [OF all_keyed] by (rule conjunct1)
  have key_all: "\<forall>p\<in>set all_keyed. neg_score (snd p) = Inr (fst p)"
    using keyed_Inr [OF all_keyed] by (rule conjunct2)
  have no_nan: "\<forall>p\<in>set all_keyed. fst p \<noteq> NaN"
  proof
    fix p assume p: "p \<in> set all_keyed"
    then have "snd p \<in> set (map snd all_keyed)"
      by simp
    then have "snd p \<in> set (x # xs)"
      by (simp only: snd_all)
    then have "numeric_score (snd p)"
      using assms by blast
    then obtain j where "neg_score (snd p) = Inr j" and "j \<noteq> NaN"
      using numeric_score_key by blast
    moreover have "neg_score (snd p) = Inr (fst p)"
      using key_all p by simp
    ultimately show "fst p \<noteq> NaN"
      by simp
  qed
  define S where "S = foldr insort_lt kxs []"
  define T where "T = foldr insort_lt all_keyed []"
  define pre where "pre = map snd (takeWhile (\<lambda>y. flt (fst y) k) S)"
  define post where "post = map snd (dropWhile (\<lambda>y. flt (fst y) k) S)"
  have T_split: "T = takeWhile (\<lambda>y. flt (fst y) k) S @ (k, x) # dropWhile (\<lambda>y. flt (fst y) k) S"
    by (simp add: T_def all_eq S_def insort_lt_split)
  have map_T: "map snd T = pre @ x # post"
    by (simp add: T_split pre_def post_def)
  have set_T: "set T = set all_keyed"
    by (simp add: T_def set_foldr_insort_lt)
  have key_T: "\<forall>p\<in>set T. neg_score (snd p) = Inr (fst p)"
    using key_all set_T by simp
  have result: "py_sorted neg_score (x # xs) = Inr (pre @ x # post)"
    unfolding py_sorted_def all_keyed using map_T by (simp add: T_def)
  have "pre @ post = map snd S"
    by (simp add: pre_def post_def flip: map_append)
  then have "mset (pre @ post) = image_mset snd (mset S)"
    by simp
  also have "\<dots> = image_mset snd (mset kxs)"
    by (simp add: S_def mset_foldr_insort_lt)
  also have "\<dots> = mset (map snd kxs)"
    by simp
  finally have perm: "mset (pre @ post) = mset xs"
    by (simp add: snd_kxs)
  have above: "\<forall>e\<in>set pre. score_gt e x"
  proof
    fix e assume "e \<in> set pre"
    then obtain p where p: "p \<in> set (takeWhile (\<lambda>y. flt (fst y) k) S)" and e: "e = snd p"
      by (auto simp add: pre_def)
    have less: "flt (fst p) k"
      using p by (rule set_takeWhileD [THEN conjunct2])
    have "p \<in> set T"
      using p by (simp add: T_split)
    then have "neg_score (snd p) = Inr (fst p)"
      using key_T by simp
    then show "score_gt e x"
      using less k e by (simp add: score_gt_def score_of_key flt_fneg)
  qed
  have "sorted_wrt keys_le T"
    unfolding T_def using no_nan by (rule sorted_foldr_insort_lt)
  then have "sorted_wrt score_ge (map snd T)"
    by (rule sorted_scores [OF key_T])
  then have ordered: "sorted_wrt score_ge (pre @ x # post)"
    by (simp add: map_T)
  have stable: "filter (\<lambda>e. score_of e = Some c) (pre @ x # post)
      = filter (\<lambda>e. score_of e = Some c) (x # xs)" for c
  proof -
    have "filter (\<lambda>e. score_of e = Some c) (map snd T) = map snd (filter (\<lambda>p. fst p = fneg c) T)"
      using key_T by (rule filter_scores)
    also have "\<dots> = map snd (filter (\<lambda>p. fst p = fneg c) all_keyed)"
      by (simp add: T_def filter_foldr_insort_lt)
    also have "\<dots> = filter (\<lambda>e. score_of e = Some c) (map snd all_keyed)"
      using key_all by (rule filter_scores [symmetric])
    finally show ?thesis
      by (simp only: map_T snd_all)
  qed
  show ?thesis
  proof (intro exI conjI allI)
    show "py_sorted neg_score (x # xs) = Inr (pre @ x # post)" by (rule result)
    show "mset (pre @ post) = mset xs" by (rule perm)
    show "\<forall>e\<in>set pre. score_gt e x" by (rule above)
    show "sorted_wrt score_ge (pre @ x # post)" by (rule ordered)
    show "filter (\<lambda>e. score_of e = Some c) (pre @ x # post)
      = filter (\<lambda>e. score_of e = Some c) (x # xs)" for c by (rule stable)
  qed
qed

lemma mset_take_subset: "mset (take n xs) \<subseteq># mset xs"
proof -
  have "mset xs = mset (take n xs) + mset (drop n xs)"
    by (metis append_take_drop_id mset_append)
  then show ?thesis
    by simp
qed

lemma take_contains_early:
  assumes "length pre < n"
  shows "x \<in> set (take n (pre @ x # post))"
proof -
  obtain m where "n - length pre = Suc m"
    using assms by (metis Suc_diff_Suc)
  then show ?thesis
    by simp
qed

lemma length_le_count:
  assumes "mset (pre @ post) = mset xs" and "\<forall>e\<in>set pre. P e"
  shows "length pre \<le> length (filter P xs)"
proof -
  have "length (filter P xs) = size (filter_mset P (mset xs))"
    by (metis mset_filter size_mset)
  also have "\<dots> = size (filter_mset P (mset pre)) + size (filter_mset P (mset post))"
    by (simp flip: assms(1))
  also have "filter_mset P (mset pre) = mset pre"
    using assms(2) by (simp add: filter_mset_eq_conv)
  finally show ?thesis
    by simp
qed

text \<open>A valid submission against a well-formed leaderboard: what \<^verbatim>\<open>submit\<close> does.\<close>

lemma submit_inserts:
  assumes "submit_try lib request = Inr (name, score)" and "score \<noteq> NaN"
    and "read_storage st = Inr text" and "json_loads lib text = Some (JArr prior)"
    and "\<forall>e\<in>set prior. numeric_score e" and "\<not> upload_denied st"
  shows "\<exists>pre post.
      submit lib now request st =
        Inr ((Json (JArr (take 10 (pre @ new_entry name score now # post))), 200, headers),
             st\<lparr>object_text :=
                  Some (json_dumps lib (JArr (take 10 (pre @ new_entry name score now # post)))),
                uploads := Suc (uploads st)\<rparr>)
      \<and> mset (pre @ post) = mset prior
      \<and> (\<forall>e\<in>set pre. score_gt e (new_entry name score now))
      \<and> sorted_wrt score_ge (pre @ new_entry name score now # post)
      \<and> (\<forall>c. filter (\<lambda>e. score_of e = Some c) (pre @ new_entry name score now # post)
             = filter (\<lambda>e. score_of e = Some c) (new_entry name score now # prior))"
proof -
  have "\<forall>e\<in>set (new_entry name score now # prior). numeric_score e"
    using assms(2,5) by (simp add: numeric_score_new_entry)
  from py_sorted_insert [OF this]
  obtain pre post where
    srt: "py_sorted neg_score (new_entry name score now # prior)
        = Inr (pre @ new_entry name score now # post)"
    and rest: "mset (pre @ post) = mset prior"
      "\<forall>e\<in>set pre. score_gt e (new_entry name score now)"
      "sorted_wrt score_ge (pre @ new_entry name score now # post)"
      "\<forall>c. filter (\<lambda>e. score_of e = Some c) (pre @ new_entry name score now # post)
             = filter (\<lambda>e. score_of e = Some c) (new_entry name score now # prior)"
    by (elim exE conjE)
  show ?thesis
    using submit_valid [OF assms(1,3,4) srt assms(6)] rest
    by (intro exI conjI)
qed

section \<open>Reading back what \<^verbatim>\<open>json.dumps\<close> writes\<close>

subsection \<open>Strings\<close>

text \<open>The decoder reads an escaped string, closed by its quote, as the string itself.\<close>

lemma hex_value_hex_digit: "d < 16 \<Longrightarrow> hex_value (hex_digit d) = Some d"
proof -
  assume "d < 16"
  then have "d = 0 \<or> d = 1 \<or> d = 2 \<or> d = 3 \<or> d = 4 \<or> d = 5 \<or> d = 6 \<or> d = 7
      \<or> d = 8 \<or> d = 9 \<or> d = 10 \<or> d = 11 \<or> d = 12 \<or> d = 13 \<or> d = 14 \<or> d = 15"
    by presburger
  then show ?thesis
    by (elim disjE) (simp_all add: hex_value_def hex_digit_def)
qed

lemma decode_u_byte:
  "decode_u [CHR ''0'', CHR ''0'', hex_digit (of_char c div 16), hex_digit (of_char c mod 16)] = Some c"
proof -
  have hi: "(of_char c :: nat) div 16 < 16"
    using nat_of_char_less_256 [of c] by presburger
  have lo: "(of_char c :: nat) mod 16 < 16"
    by simp
  have zero: "hex_value CHR ''0'' = Some 0"
    by (simp add: hex_value_def)
  show ?thesis
    by (simp add: decode_u_def zero hex_value_hex_digit [OF hi] hex_value_hex_digit [OF lo])
qed

lemma scanstring_escape_char:
  "scanstring (escape_char c @ body) =
    (case scanstring body of None \<Rightarrow> None | Some (str, rest) \<Rightarrow> Some (c # str, rest))"
proof -
  consider (quote) "c = quote" | (backslash) "c = backslash"
    | (named) "c \<in> {CHR 0x08, CHR 0x0C, CHR 0x0A, CHR 0x0D, CHR 0x09}"
    | (coded) "c \<noteq> quote" "c \<noteq> backslash"
        "c \<notin> {CHR 0x08, CHR 0x0C, CHR 0x0A, CHR 0x0D, CHR 0x09}"
        "(of_char c :: nat) < 32 \<or> 126 < (of_char c :: nat)"
    | (plain) "c \<noteq> quote" "c \<noteq> backslash" "32 \<le> (of_char c :: nat)" "(of_char c :: nat) \<le> 126"
    by force
  then show ?thesis
  proof cases
    case quote
    show ?thesis
      unfolding quote quote_def backslash_def
      by (simp add: escape_char_def unescape_def quote_def backslash_def)
  next
    case backslash
    show ?thesis
      unfolding backslash quote_def backslash_def
      by (simp add: escape_char_def unescape_def quote_def backslash_def)
  next
    case named
    then consider "c = CHR 0x08" | "c = CHR 0x0C" | "c = CHR 0x0A" | "c = CHR 0x0D" | "c = CHR 0x09"
      by blast
    then show ?thesis
    proof cases
      case 1
      show ?thesis
        unfolding 1 by (simp add: escape_char_def unescape_def quote_def backslash_def)
    next
      case 2
      show ?thesis
        unfolding 2 by (simp add: escape_char_def unescape_def quote_def backslash_def)
    next
      case 3
      show ?thesis
        unfolding 3 by (simp add: escape_char_def unescape_def quote_def backslash_def)
    next
      case 4
      show ?thesis
        unfolding 4 by (simp add: escape_char_def unescape_def quote_def backslash_def)
    next
      case 5
      show ?thesis
        unfolding 5 by (simp add: escape_char_def unescape_def quote_def backslash_def)
    qed
  next
    case coded
    then have "escape_char c = [backslash, CHR ''u'', CHR ''0'', CHR ''0'',
             hex_digit (of_char c div 16), hex_digit (of_char c mod 16)]"
      by (simp add: escape_char_def)
    then show ?thesis
      by (simp add: decode_u_byte quote_def backslash_def)
  next
    case plain
    then have "escape_char c = [c]"
      by (auto simp add: escape_char_def quote_def backslash_def)
    then show ?thesis
      using plain by simp
  qed
qed

lemma scanstring_json_escape: "scanstring (json_escape s @ quote # rest) = Some (s, rest)"
proof (induction s)
  case Nil
  then show ?case by (simp add: json_escape_def)
next
  case (Cons c s)
  have "json_escape (c # s) @ quote # rest = escape_char c @ (json_escape s @ quote # rest)"
    by (simp add: json_escape_def)
  then show ?case
    using Cons by (simp only: scanstring_escape_char) simp
qed

subsection \<open>Numbers\<close>

text \<open>A number that is followed by a comma is read as it is read alone.\<close>

lemma takeWhile_stop: "\<not> P c \<Longrightarrow> takeWhile P (xs @ c # ys) = takeWhile P xs"
  by (induction xs) auto

lemma dropWhile_stop: "\<not> P c \<Longrightarrow> dropWhile P (xs @ c # ys) = dropWhile P xs @ c # ys"
  by (induction xs) auto

lemma comma_not_digit: "\<not> is_digit CHR '',''"
  by (simp add: is_digit_def)

lemma int_part_comma:
  assumes "int_part s = Some (integer, r)"
  shows "int_part (s @ CHR '','' # rest) = Some (integer, r @ CHR '','' # rest)"
proof (cases s)
  case Nil
  then show ?thesis
    using assms by (simp add: int_part_def)
next
  case (Cons a s')
  show ?thesis
  proof (cases "a = CHR ''-''")
    case True
    then obtain d ds where s': "s' = d # ds"
      using assms Cons by (cases s') (auto simp add: int_part_def)
    show ?thesis
      using assms True
      by (auto simp add: int_part_def Let_def Cons s' takeWhile_stop dropWhile_stop comma_not_digit
          split: if_splits)
  next
    case False
    then show ?thesis
      using assms
      by (auto simp add: int_part_def Let_def Cons takeWhile_stop dropWhile_stop comma_not_digit
          split: if_splits)
  qed
qed

lemma frac_part_comma:
  assumes "frac_part s = (fraction, r)"
  shows "frac_part (s @ CHR '','' # rest) = (fraction, r @ CHR '','' # rest)"
  using assms
  by (cases s)
    (auto simp add: frac_part_def takeWhile_stop dropWhile_stop comma_not_digit split: if_splits)

lemma exp_part_comma:
  assumes "exp_part s = (exponent, r)"
  shows "exp_part (s @ CHR '','' # rest) = (exponent, r @ CHR '','' # rest)"
proof (cases s)
  case Nil
  then show ?thesis
    using assms by (simp add: exp_part_def)
next
  case (Cons c cs)
  show ?thesis
  proof (cases cs)
    case Nil
    then show ?thesis
      using assms Cons by (auto simp add: exp_part_def comma_not_digit split: if_splits)
  next
    case (Cons g gs)
    then show ?thesis
      using assms \<open>s = c # cs\<close>
      by (auto simp add: exp_part_def Let_def takeWhile_stop dropWhile_stop comma_not_digit
          split: if_splits)
  qed
qed

lemma scan_number_comma:
  assumes "scan_number s = Some (integer, frac_exp, r)"
  shows "scan_number (s @ CHR '','' # rest) = Some (integer, frac_exp, r @ CHR '','' # rest)"
proof -
  from assms obtain s1 where i: "int_part s = Some (integer, s1)"
    by (auto simp add: scan_number_def split: option.splits prod.splits)
  obtain fraction s2 where f: "frac_part s1 = (fraction, s2)"
    by (cases "frac_part s1")
  obtain exponent s3 where e: "exp_part s2 = (exponent, s3)"
    by (cases "exp_part s2")
  have "frac_exp = fraction @ exponent" and "r = s3"
    using assms by (simp_all add: scan_number_def i f e)
  then show ?thesis
    by (simp add: scan_number_def int_part_comma [OF i] frac_part_comma [OF f]
        exp_part_comma [OF e])
qed

lemma scan_number_head:
  assumes "scan_number s = Some (integer, frac_exp, r)"
  shows "\<exists>c cs. s = c # cs \<and> (c = CHR ''-'' \<or> is_digit c)"
proof -
  from assms obtain s1 where "int_part s = Some (integer, s1)"
    by (auto simp add: scan_number_def split: option.splits prod.splits)
  then show ?thesis
    by (cases s) (auto simp add: int_part_def is_digit_def split: list.splits if_splits)
qed

subsection \<open>Values\<close>

lemma skip_ws_start: "\<not> is_ws c \<Longrightarrow> skip_ws (c # cs) = c # cs"
  by (simp add: skip_ws_def)

lemma skip_ws_space: "skip_ws (CHR '' '' # cs) = skip_ws cs"
  by (simp add: skip_ws_def is_ws_def)

lemma quote_not_ws: "\<not> is_ws quote"
  by (simp add: is_ws_def quote_def)

lemma parse_string:
  "parse_value lib (Suc n) (quoted s @ rest) = Some (JStr s, rest)"
  by (simp add: quoted_def scanstring_json_escape)

lemma parse_number:
  assumes "reads_back number_repr lib x"
  shows "parse_value lib (Suc n) (py_json_dumps number_repr (JNum x) @ CHR '','' # rest)
      = Some (JNum x, CHR '','' # rest)"
proof (cases x)
  case (Finite q)
  from assms Finite obtain integer frac_exp where
    scan: "scan_number (number_repr q) = Some (integer, frac_exp, [])"
    and "value": "number_value lib integer frac_exp = Some (Finite q)"
    by (auto simp add: reads_back_def split: option.splits)
  from scan_number_head [OF scan] obtain c cs where
    tok: "number_repr q = c # cs" and head: "c = CHR ''-'' \<or> is_digit c"
    by blast
  have scan': "scan_number (c # cs @ CHR '','' # rest) = Some (integer, frac_exp, CHR '','' # rest)"
    using scan_number_comma [OF scan, of rest] by (simp add: tok)
  have c: "c \<noteq> quote" "c \<noteq> CHR ''{''" "c \<noteq> CHR ''[''" "c \<noteq> CHR ''n''" "c \<noteq> CHR ''t''"
    "c \<noteq> CHR ''f''"
    using head by (auto simp add: is_digit_def quote_def)
  show ?thesis
    using c by (simp add: Finite tok scan' "value")
next
  case PosInf
  have "scan_number (''Infinity'' @ CHR '','' # rest) = None"
    by (simp add: scan_number_def int_part_def is_digit_def)
  then show ?thesis
    by (simp add: PosInf quote_def)
next
  case NegInf
  have "scan_number (''-Infinity'' @ CHR '','' # rest) = None"
    by (simp add: scan_number_def int_part_def is_digit_def)
  then show ?thesis
    by (simp add: NegInf quote_def)
next
  case NaN
  have "scan_number (''NaN'' @ CHR '','' # rest) = None"
    by (simp add: scan_number_def int_part_def is_digit_def)
  then show ?thesis
    by (simp add: NaN quote_def)
qed

lemma parse_object_last:
  assumes "parse_value lib n (v_text @ CHR ''}'' # rest) = Some (v, CHR ''}'' # rest)"
    and "skip_ws (v_text @ CHR ''}'' # rest) = v_text @ CHR ''}'' # rest"
  shows "parse_object lib (Suc n) (quoted k @ '': '' @ v_text @ CHR ''}'' # rest)
      = Some ([(k, v)], rest)"
proof -
  have "quoted k @ '': '' @ v_text @ CHR ''}'' # rest
      = quote # (json_escape k @ quote # (CHR '':'' # CHR '' '' # v_text @ CHR ''}'' # rest))"
    by (simp add: quoted_def)
  then show ?thesis
    using assms
    by (simp add: scanstring_json_escape skip_ws_space skip_ws_start is_ws_def)
qed

lemma parse_object_more:
  assumes "parse_value lib n (v_text @ CHR '','' # CHR '' '' # tail_text) = Some (v, CHR '','' # CHR '' '' # tail_text)"
    and "skip_ws (v_text @ CHR '','' # CHR '' '' # tail_text) = v_text @ CHR '','' # CHR '' '' # tail_text"
    and "parse_object lib n tail_text = Some (pairs, rest)"
    and "skip_ws tail_text = tail_text"
  shows "parse_object lib (Suc n) (quoted k @ '': '' @ v_text @ '', '' @ tail_text)
      = Some ((k, v) # pairs, rest)"
proof -
  have "quoted k @ '': '' @ v_text @ '', '' @ tail_text
      = quote # (json_escape k @ quote
          # (CHR '':'' # CHR '' '' # v_text @ CHR '','' # CHR '' '' # tail_text))"
    by (simp add: quoted_def)
  then show ?thesis
    using assms
    by (simp add: scanstring_json_escape skip_ws_space skip_ws_start is_ws_def)
qed

subsection \<open>Entries\<close>

lemma entry_text:
  "py_json_dumps number_repr (new_entry name score stamp) =
    CHR ''{'' # quoted ''name'' @ '': '' @ quoted name @ '', ''
      @ quoted ''score'' @ '': '' @ py_json_dumps number_repr (JNum score) @ '', ''
      @ quoted ''timestamp'' @ '': '' @ quoted stamp @ ''}''"
  by (simp add: new_entry_def)

lemma skip_ws_quoted: "skip_ws (quoted s @ t) = quoted s @ t"
  by (simp add: quoted_def skip_ws_start quote_not_ws)

lemma skip_ws_number:
  assumes "reads_back number_repr lib x"
  shows "skip_ws (py_json_dumps number_repr (JNum x) @ t) = py_json_dumps number_repr (JNum x) @ t"
proof (cases x)
  case (Finite q)
  from assms Finite obtain integer frac_exp where
    scan: "scan_number (number_repr q) = Some (integer, frac_exp, [])"
    by (auto simp add: reads_back_def split: option.splits)
  from scan_number_head [OF scan] obtain c cs where
    tok: "number_repr q = c # cs" and head: "c = CHR ''-'' \<or> is_digit c"
    by blast
  have "\<not> is_ws c"
    using head by (auto simp add: is_digit_def is_ws_def)
  then show ?thesis
    by (simp add: Finite tok skip_ws_start)
qed (simp_all add: skip_ws_def is_ws_def)

lemma dict_entry:
  "dict [(''name'', a), (''score'', b), (''timestamp'', c)]
    = [(''name'', a), (''score'', b), (''timestamp'', c)]"
  by simp

lemma parse_entry:
  assumes "reads_back number_repr lib score"
  shows "parse_value lib (Suc (Suc (Suc (Suc (Suc n)))))
        (py_json_dumps number_repr (new_entry name score stamp) @ rest)
      = Some (new_entry name score stamp, rest)"
proof -
  let ?m3 = "quoted ''timestamp'' @ '': '' @ quoted stamp @ CHR ''}'' # rest"
  let ?m2 = "quoted ''score'' @ '': '' @ py_json_dumps number_repr (JNum score) @ '', '' @ ?m3"
  let ?m1 = "quoted ''name'' @ '': '' @ quoted name @ '', '' @ ?m2"
  have m3: "parse_object lib (Suc (Suc n)) ?m3 = Some ([(''timestamp'', JStr stamp)], rest)"
    by (rule parse_object_last) (simp_all only: parse_string skip_ws_quoted)
  have m2: "parse_object lib (Suc (Suc (Suc n))) ?m2
      = Some ([(''score'', JNum score), (''timestamp'', JStr stamp)], rest)"
  proof (rule parse_object_more)
    show "parse_value lib (Suc (Suc n))
        (py_json_dumps number_repr (JNum score) @ CHR '','' # CHR '' '' # ?m3)
        = Some (JNum score, CHR '','' # CHR '' '' # ?m3)"
      using assms by (rule parse_number)
    show "skip_ws (py_json_dumps number_repr (JNum score) @ CHR '','' # CHR '' '' # ?m3)
        = py_json_dumps number_repr (JNum score) @ CHR '','' # CHR '' '' # ?m3"
      using assms by (rule skip_ws_number)
    show "parse_object lib (Suc (Suc n)) ?m3 = Some ([(''timestamp'', JStr stamp)], rest)"
      by (rule m3)
    show "skip_ws ?m3 = ?m3"
      by (rule skip_ws_quoted)
  qed
  have m1: "parse_object lib (Suc (Suc (Suc (Suc n)))) ?m1
      = Some ([(''name'', JStr name), (''score'', JNum score), (''timestamp'', JStr stamp)], rest)"
  proof (rule parse_object_more)
    show "parse_value lib (Suc (Suc (Suc n))) (quoted name @ CHR '','' # CHR '' '' # ?m2)
        = Some (JStr name, CHR '','' # CHR '' '' # ?m2)"
      by (rule parse_string)
    show "skip_ws (quoted name @ CHR '','' # CHR '' '' # ?m2) = quoted name @ CHR '','' # CHR '' '' # ?m2"
      by (rule skip_ws_quoted)
    show "parse_object lib (Suc (Suc (Suc n))) ?m2
        = Some ([(''score'', JNum score), (''timestamp'', JStr stamp)], rest)"
      by (rule m2)
    show "skip_ws ?m2 = ?m2"
      by (rule skip_ws_quoted)
  qed
  have whole: "py_json_dumps number_repr (new_entry name score stamp) @ rest = CHR ''{'' # ?m1"
    by (simp add: entry_text)
  obtain ds where start: "?m1 = quote # ds"
    by (simp add: quoted_def)
  have "skip_ws (quote # ds) = quote # ds"
    by (simp add: skip_ws_start quote_not_ws)
  then have "skip_ws ?m1 = quote # ds"
    by (simp only: start)
  moreover have "parse_object lib (Suc (Suc (Suc (Suc n)))) (quote # ds)
      = Some ([(''name'', JStr name), (''score'', JNum score), (''timestamp'', JStr stamp)], rest)"
    using m1 start by simp
  ultimately have "parse_value lib (Suc (Suc (Suc (Suc (Suc n))))) (CHR ''{'' # ?m1)
      = Some (JObj (dict [(''name'', JStr name), (''score'', JNum score),
          (''timestamp'', JStr stamp)]), rest)"
    by (simp add: quote_def)
  then have "parse_value lib (Suc (Suc (Suc (Suc (Suc n))))) (CHR ''{'' # ?m1)
      = Some (new_entry name score stamp, rest)"
    by (simp only: dict_entry new_entry_def)
  then show ?thesis
    by (simp only: whole)
qed

subsection \<open>Leaderboards\<close>

lemma parse_array_last:
  assumes "parse_value lib n (v_text @ CHR '']'' # rest) = Some (v, CHR '']'' # rest)"
  shows "parse_array lib (Suc n) (v_text @ CHR '']'' # rest) = Some ([v], rest)"
  using assms by (simp add: skip_ws_start is_ws_def)

lemma parse_array_more:
  assumes "parse_value lib n (v_text @ CHR '','' # CHR '' '' # tail_text)
      = Some (v, CHR '','' # CHR '' '' # tail_text)"
    and "parse_array lib n tail_text = Some (values, rest)"
    and "skip_ws tail_text = tail_text"
  shows "parse_array lib (Suc n) (v_text @ CHR '','' # CHR '' '' # tail_text) = Some (v # values, rest)"
  using assms by (simp add: skip_ws_space skip_ws_start is_ws_def)

lemma parse_value_array:
  assumes "parse_array lib n (CHR ''{'' # cs) = Some (values, rest)"
  shows "parse_value lib (Suc n) (CHR ''['' # CHR ''{'' # cs) = Some (JArr values, rest)"
  using assms by (simp add: skip_ws_start is_ws_def quote_def)

lemma row_text_start: "\<exists>cs. row_text number_repr row = CHR ''{'' # cs"
  by (cases row) (simp add: row_text_def entry_of_def entry_text)

lemma length_row_text: "4 \<le> length (row_text number_repr row)"
  by (cases row) (simp add: row_text_def entry_of_def entry_text quoted_def)

lemma join_comma_Cons_Cons: "join_comma (t0 # t1 # ts) = t0 @ CHR '','' # CHR '' '' # join_comma (t1 # ts)"
  by simp

lemma join_comma_start:
  assumes "t0 = c # cs"
  shows "\<exists>ds. join_comma (t0 # ts) = c # ds"
  using assms by (cases ts) simp_all

lemma length_join_comma:
  assumes "\<forall>t\<in>set ts. 4 \<le> length t"
  shows "4 * length ts \<le> length (join_comma ts)"
  using assms by (induction ts rule: join_comma.induct) simp_all

lemma parse_row:
  assumes "reads_back number_repr lib (fst (snd row))"
  shows "parse_value lib (Suc (Suc (Suc (Suc (Suc n))))) (row_text number_repr row @ rest)
      = Some (entry_of row, rest)"
proof -
  obtain name score stamp where row: "row = (name, score, stamp)"
    by (cases row)
  have "reads_back number_repr lib score"
    using assms by (simp add: row)
  then have "parse_value lib (Suc (Suc (Suc (Suc (Suc n)))))
        (py_json_dumps number_repr (new_entry name score stamp) @ rest)
      = Some (new_entry name score stamp, rest)"
    by (rule parse_entry)
  then show ?thesis
    by (simp only: row row_text_def entry_of_def prod.case)
qed

lemma parse_array_rows:
  assumes "\<forall>row\<in>set (r0 # rs). reads_back number_repr lib (fst (snd row))"
  shows "parse_array lib (Suc (Suc (Suc (Suc (Suc (Suc (length rs + n)))))))
        (join_comma (map (row_text number_repr) (r0 # rs)) @ CHR '']'' # rest)
      = Some (map entry_of (r0 # rs), rest)"
  using assms
proof (induction rs arbitrary: r0)
  case Nil
  have scores_ok: "reads_back number_repr lib (fst (snd r0))"
    using Nil.prems by simp
  have "parse_array lib (Suc (Suc (Suc (Suc (Suc (Suc n))))))
      (row_text number_repr r0 @ CHR '']'' # rest) = Some ([entry_of r0], rest)"
    by (rule parse_array_last) (rule parse_row [OF scores_ok])
  then show ?case
    by (simp only: list.map join_comma.simps list.size add_0)
next
  case (Cons r1 rs)
  have scores_ok: "reads_back number_repr lib (fst (snd r0))"
    using Cons.prems by simp
  have rest_back: "\<forall>row\<in>set (r1 # rs). reads_back number_repr lib (fst (snd row))"
    using Cons.prems by simp
  define tail_text where
    "tail_text = join_comma (map (row_text number_repr) (r1 # rs)) @ CHR '']'' # rest"
  obtain cs where "row_text number_repr r1 = CHR ''{'' # cs"
    using row_text_start by blast
  from join_comma_start [OF this] obtain ds where
    "join_comma (row_text number_repr r1 # map (row_text number_repr) rs) = CHR ''{'' # ds"
    by blast
  then have start: "tail_text = CHR ''{'' # ds @ CHR '']'' # rest"
    by (simp add: tail_text_def)
  have skip: "skip_ws tail_text = tail_text"
    unfolding start by (rule skip_ws_start) (simp add: is_ws_def)
  have others: "parse_array lib (Suc (Suc (Suc (Suc (Suc (Suc (length rs + n))))))) tail_text
      = Some (map entry_of (r1 # rs), rest)"
    unfolding tail_text_def by (rule Cons.IH [OF rest_back])
  have first: "parse_value lib (Suc (Suc (Suc (Suc (Suc (Suc (length rs + n)))))))
      (row_text number_repr r0 @ CHR '','' # CHR '' '' # tail_text)
      = Some (entry_of r0, CHR '','' # CHR '' '' # tail_text)"
    by (rule parse_row [OF scores_ok])
  have step: "parse_array lib (Suc (Suc (Suc (Suc (Suc (Suc (Suc (length rs + n))))))))
      (row_text number_repr r0 @ CHR '','' # CHR '' '' # tail_text)
      = Some (entry_of r0 # map entry_of (r1 # rs), rest)"
    using first others skip by (rule parse_array_more)
  have whole: "join_comma (map (row_text number_repr) (r0 # r1 # rs)) @ CHR '']'' # rest
      = row_text number_repr r0 @ CHR '','' # CHR '' '' # tail_text"
    by (simp add: tail_text_def)
  have fuel: "length (r1 # rs) + n = Suc (length rs + n)"
    by simp
  show ?case
    unfolding whole fuel using step by (simp only: list.map)
qed

lemma loads_dumps_rows:
  assumes "\<forall>row\<in>set rows. reads_back number_repr lib (fst (snd row))"
  shows "py_json_loads lib (py_json_dumps number_repr (leaderboard rows)) = Some (leaderboard rows)"
proof (cases rows)
  case Nil
  then show ?thesis
    by (simp add: leaderboard_def py_json_loads_def skip_ws_def is_ws_def quote_def)
next
  case (Cons r0 rs)
  define items where "items = join_comma (map (row_text number_repr) (r0 # rs))"
  define whole where "whole = CHR ''['' # items @ '']''"
  have dumps: "py_json_dumps number_repr (leaderboard rows) = whole"
    by (simp add: Cons leaderboard_def whole_def items_def row_text_def [abs_def] comp_def)
  have "\<forall>t\<in>set (map (row_text number_repr) (r0 # rs)). 4 \<le> length t"
    by (simp add: length_row_text)
  then have "4 * length (map (row_text number_repr) (r0 # rs)) \<le> length items"
    unfolding items_def by (rule length_join_comma)
  then have bound: "6 + length rs \<le> length whole"
    by (simp add: whole_def)
  define n where "n = length whole - (6 + length rs)"
  have fuel: "length whole = Suc (Suc (Suc (Suc (Suc (Suc (length rs + n))))))"
    using bound by (simp add: n_def)
  obtain cs where "row_text number_repr r0 = CHR ''{'' # cs"
    using row_text_start by blast
  from join_comma_start [OF this] obtain ds where
    "join_comma (row_text number_repr r0 # map (row_text number_repr) rs) = CHR ''{'' # ds"
    by blast
  then have start: "items = CHR ''{'' # ds"
    by (simp add: items_def)
  have scores_ok: "\<forall>row\<in>set (r0 # rs). reads_back number_repr lib (fst (snd row))"
    using assms by (simp only: Cons)
  have "parse_array lib (Suc (Suc (Suc (Suc (Suc (Suc (length rs + n)))))))
      (items @ CHR '']'' # []) = Some (map entry_of (r0 # rs), [])"
    unfolding items_def by (rule parse_array_rows [OF scores_ok])
  then have "parse_array lib (length whole) (CHR ''{'' # (ds @ '']'')) = Some (map entry_of rows, [])"
    by (simp only: fuel start Cons append_Cons)
  then have "parse_value lib (Suc (length whole)) (CHR ''['' # CHR ''{'' # (ds @ '']''))
      = Some (JArr (map entry_of rows), [])"
    by (rule parse_value_array)
  then have parsed: "parse_value lib (Suc (length whole)) whole = Some (leaderboard rows, [])"
    by (simp only: whole_def start append_Cons leaderboard_def)
  have skip: "skip_ws whole = whole"
    unfolding whole_def by (rule skip_ws_start) (simp add: is_ws_def)
  have "py_json_loads lib whole = Some (leaderboard rows)"
    unfolding py_json_loads_def by (simp only: skip parsed) (simp add: skip_ws_def)
  then show ?thesis
    by (simp only: dumps)
qed

section \<open>Running the handlers on examples\<close>

text \<open>The definitions that a run of the handlers on a concrete request unfolds.\<close>

lemmas run_simps = py_float_def lower_def is_digit_def decimal_def py_round_def
  submit_try_def read_storage_def write_storage_def py_sorted_def new_entry_def fle_def
  sample_runtime_def sample_bucket_def sample_post_def

lemma sample_try: "submit_try sample_runtime (sample_post ''C'' ''50'') = Inr (''C'', Finite 50)"
  by (simp add: run_simps)

lemma sample_read: "read_storage (sample_bucket entries) = Inr (JArr entries)"
  by (simp add: read_storage_def sample_bucket_def)

lemma sample_loads: "json_loads sample_runtime (JArr entries) = Some (JArr entries)"
  by (simp add: sample_runtime_def)

lemma sample_board_numeric: "\<forall>e\<in>set sample_board. numeric_score e"
  by (simp add: sample_board_def numeric_score_def score_of_def new_entry_def)

lemma sample_allowed: "\<not> upload_denied (sample_bucket entries)"
  by (simp add: sample_bucket_def)

lemma sample_unsorted_numeric: "\<forall>e\<in>set sample_unsorted_board. numeric_score e"
  by (simp add: sample_unsorted_board_def numeric_score_def score_of_def new_entry_def)

lemma sample_unsorted_run:
  "submit sample_runtime ''T'' (sample_post ''C'' ''50'') (sample_bucket sample_unsorted_board) =
      Inr ((Json (JArr [new_entry ''A'' (Finite 90) ''t1'', new_entry ''C'' (Finite 50) ''T'',
                        new_entry ''B'' (Finite 40) ''t2'']), 200, headers),
           (sample_bucket sample_unsorted_board)
             \<lparr>object_text :=
                Some (json_dumps sample_runtime
                  (JArr [new_entry ''A'' (Finite 90) ''t1'', new_entry ''C'' (Finite 50) ''T'',
                         new_entry ''B'' (Finite 40) ''t2''])),
              uploads := Suc (uploads (sample_bucket sample_unsorted_board))\<rparr>)"
proof -
  have srt: "py_sorted neg_score (new_entry ''C'' (Finite 50) ''T'' # sample_unsorted_board)
      = Inr [new_entry ''A'' (Finite 90) ''t1'', new_entry ''C'' (Finite 50) ''T'',
             new_entry ''B'' (Finite 40) ''t2'']"
    by (simp add: py_sorted_def new_entry_def sample_unsorted_board_def)
  show ?thesis
    using submit_valid [OF sample_try sample_read sample_loads srt sample_allowed] by simp
qed

text \<open>The \<^verbatim>\<open>json\<close> module on the leaderboard of two entries.\<close>

lemma sample_repr_50: "sample_repr 50 = ''50.0''"
  by (simp add: sample_repr_def digits_of.simps)

lemma sample_repr_40: "sample_repr 40 = ''40.0''"
  by (simp add: sample_repr_def digits_of.simps)

lemma sample_scan_50: "scan_number ''50.0'' = Some (''50'', ''.0'', [])"
  by (simp add: scan_number_def int_part_def frac_part_def exp_part_def is_digit_def)

lemma sample_scan_40: "scan_number ''40.0'' = Some (''40'', ''.0'', [])"
  by (simp add: scan_number_def int_part_def frac_part_def exp_part_def is_digit_def)

lemma sample_float_50:
  "py_float (sample_runtime\<lparr>float_literal := sample_float_literal\<rparr>) ''50.0'' = Some (Finite 50)"
  by (simp add: py_float_def lower_def is_digit_def decimal_def sample_float_literal_def)

lemma sample_float_40:
  "py_float (sample_runtime\<lparr>float_literal := sample_float_literal\<rparr>) ''40.0'' = Some (Finite 40)"
  by (simp add: py_float_def lower_def is_digit_def decimal_def sample_float_literal_def)

lemma sample_rows_read_back:
  "\<forall>row\<in>set sample_rows.
     reads_back sample_repr (sample_runtime\<lparr>float_literal := sample_float_literal\<rparr>) (fst (snd row))"
  by (simp add: sample_rows_def reads_back_def number_value_def sample_repr_50 sample_repr_40
      sample_scan_50 sample_scan_40 sample_float_50 sample_float_40)

lemma sample_rows_board: "leaderboard sample_rows = JArr sample_board"
  by (simp add: leaderboard_def sample_rows_def entry_of_def sample_board_def)

lemma sample_rows_text: "json_dumps sample_json_runtime (leaderboard sample_rows) = sample_text"
  by (simp add: sample_json_runtime_def with_json_def leaderboard_def sample_rows_def entry_of_def
      new_entry_def sample_repr_50 sample_repr_40 sample_text_def in_quotes_def quoted_def
      json_escape_def escape_char_def quote_def backslash_def)

section \<open>The leaderboard after a submission\<close>

text \<open>
  Claim C1. A valid submission (name and score pass the validation, and the rounded score
  is a number, hence in \<open>(0, 100000]\<close>) is processed against any persisted leaderboard: a
  JSON array, of any length and in any order, of entries whose \<^verbatim>\<open>"score"\<close> fields are
  numbers. With the store working, the handler answers 200, and the list it writes back
  to the bucket has at most 10 elements, whose \<^verbatim>\<open>"score"\<close> fields are in non-increasing
  order: \<open>score_ge\<close> compares the fields of two entries, whatever key the handler sorts
  by.
\<close>

theorem submit_keeps_ten_sorted:
  assumes "submit_try lib request = Inr (name, score)" and "score \<noteq> NaN"
    and "read_storage st = Inr text" and "json_loads lib text = Some (JArr prior)"
    and "\<forall>e\<in>set prior. numeric_score e" and "\<not> upload_denied st"
  shows "\<exists>data.
      submit lib now request st =
        Inr ((Json (JArr data), 200, headers),
             st\<lparr>object_text := Some (json_dumps lib (JArr data)), uploads := Suc (uploads st)\<rparr>)
      \<and> length data \<le> 10 \<and> sorted_wrt score_ge data"
proof -
  from submit_inserts [OF assms, of now]
  obtain pre post where
    run: "submit lib now request st =
        Inr ((Json (JArr (take 10 (pre @ new_entry name score now # post))), 200, headers),
             st\<lparr>object_text :=
                  Some (json_dumps lib (JArr (take 10 (pre @ new_entry name score now # post)))),
                uploads := Suc (uploads st)\<rparr>)"
    and perm: "mset (pre @ post) = mset prior"
    and above: "\<forall>e\<in>set pre. score_gt e (new_entry name score now)"
    and ordered: "sorted_wrt score_ge (pre @ new_entry name score now # post)"
    and stable: "\<forall>c. filter (\<lambda>e. score_of e = Some c) (pre @ new_entry name score now # post)
             = filter (\<lambda>e. score_of e = Some c) (new_entry name score now # prior)"
    by (elim exE conjE)
  have "sorted_wrt score_ge (take 10 (pre @ new_entry name score now # post))"
    using ordered by (rule sorted_wrt_take)
  then show ?thesis
    using run by (intro exI conjI) simp_all
qed

theorem submit_keeps_ten_sorted_witness:
  "submit sample_runtime ''T'' (sample_post ''C'' ''50'') (sample_bucket sample_unsorted_board) =
      Inr ((Json (JArr [new_entry ''A'' (Finite 90) ''t1'', new_entry ''C'' (Finite 50) ''T'',
                        new_entry ''B'' (Finite 40) ''t2'']), 200, headers),
           (sample_bucket sample_unsorted_board)
             \<lparr>object_text :=
                Some (json_dumps sample_runtime
                  (JArr [new_entry ''A'' (Finite 90) ''t1'', new_entry ''C'' (Finite 50) ''T'',
                         new_entry ''B'' (Finite 40) ''t2''])),
              uploads := Suc (uploads (sample_bucket sample_unsorted_board))\<rparr>)
   \<and> sorted_wrt score_ge
        [new_entry ''A'' (Finite 90) ''t1'', new_entry ''C'' (Finite 50) ''T'',
         new_entry ''B'' (Finite 40) ''t2'']"
proof -
  have number: "Finite 50 \<noteq> NaN"
    by simp
  from submit_keeps_ten_sorted
    [OF sample_try number sample_read sample_loads sample_unsorted_numeric sample_allowed, of "''T''"]
  obtain data where
    run: "submit sample_runtime ''T'' (sample_post ''C'' ''50'') (sample_bucket sample_unsorted_board) =
        Inr ((Json (JArr data), 200, headers),
             (sample_bucket sample_unsorted_board)
               \<lparr>object_text := Some (json_dumps sample_runtime (JArr data)),
                uploads := Suc (uploads (sample_bucket sample_unsorted_board))\<rparr>)"
    and short: "length data \<le> 10"
    and ordered: "sorted_wrt score_ge data"
    by (elim exE conjE)
  have "data = [new_entry ''A'' (Finite 90) ''t1'', new_entry ''C'' (Finite 50) ''T'',
                new_entry ''B'' (Finite 40) ''t2'']"
    using run by (simp only: sample_unsorted_run) simp
  then show ?thesis
    using ordered sample_unsorted_run by (simp only:)
qed

section \<open>Ties\<close>

text \<open>
  Claim C2. When the score of a valid submission ties with entries of the persisted list,
  the new entry is placed before every one of them: the sorted list is \<open>pre\<close>, the new
  entry, \<open>post\<close>, where \<open>pre\<close> and \<open>post\<close> together are the persisted entries, every entry
  of \<open>pre\<close> has a strictly greater score, and so every persisted entry of equal score is
  in \<open>post\<close>. Concretely, with the persisted list \<^verbatim>\<open>[{A,50},{B,40}]\<close> the submission
  \<^verbatim>\<open>{C,50}\<close> results in \<^verbatim>\<open>[{C,50},{A,50},{B,40}]\<close>.
\<close>

theorem submit_new_entry_before_ties:
  assumes "read_storage st = Inr text" and "\<not> upload_denied st"
  shows "(submit_try lib request = Inr (name, score) \<and> score \<noteq> NaN
          \<and> json_loads lib text = Some (JArr prior) \<and> (\<forall>e\<in>set prior. numeric_score e)
        \<longrightarrow> (\<exists>pre post.
              submit lib now request st =
                Inr ((Json (JArr (take 10 (pre @ new_entry name score now # post))), 200, headers),
                     st\<lparr>object_text :=
                          Some (json_dumps lib
                            (JArr (take 10 (pre @ new_entry name score now # post)))),
                        uploads := Suc (uploads st)\<rparr>)
              \<and> mset (pre @ post) = mset prior
              \<and> (\<forall>e\<in>set pre. score_gt e (new_entry name score now))
              \<and> (\<forall>e\<in>set prior. score_of e = Some score \<longrightarrow> e \<in> set post \<and> e \<notin> set pre)))
      \<and> (json_loads lib text
            = Some (JArr [new_entry ''A'' (Finite 50) ta, new_entry ''B'' (Finite 40) tb])
        \<longrightarrow> submit lib now (sample_post ''C'' ''50'') st =
              Inr ((Json (JArr [new_entry ''C'' (Finite 50) now, new_entry ''A'' (Finite 50) ta,
                                new_entry ''B'' (Finite 40) tb]), 200, headers),
                   st\<lparr>object_text :=
                        Some (json_dumps lib
                          (JArr [new_entry ''C'' (Finite 50) now, new_entry ''A'' (Finite 50) ta,
                                 new_entry ''B'' (Finite 40) tb])),
                      uploads := Suc (uploads st)\<rparr>))"
proof (intro conjI impI)
  assume valid: "submit_try lib request = Inr (name, score) \<and> score \<noteq> NaN
      \<and> json_loads lib text = Some (JArr prior) \<and> (\<forall>e\<in>set prior. numeric_score e)"
  let ?new = "new_entry name score now"
  from valid have "submit_try lib request = Inr (name, score)" "score \<noteq> NaN"
    "json_loads lib text = Some (JArr prior)" "\<forall>e\<in>set prior. numeric_score e"
    by simp_all
  from submit_inserts [OF this(1,2) assms(1) this(3,4) assms(2), of now]
  obtain pre post where
    run: "submit lib now request st =
        Inr ((Json (JArr (take 10 (pre @ ?new # post))), 200, headers),
             st\<lparr>object_text := Some (json_dumps lib (JArr (take 10 (pre @ ?new # post)))),
                uploads := Suc (uploads st)\<rparr>)"
    and perm: "mset (pre @ post) = mset prior"
    and above: "\<forall>e\<in>set pre. score_gt e ?new"
    and ordered: "sorted_wrt score_ge (pre @ ?new # post)"
    and stable: "\<forall>c. filter (\<lambda>e. score_of e = Some c) (pre @ ?new # post)
             = filter (\<lambda>e. score_of e = Some c) (?new # prior)"
    by (elim exE conjE)
  have ties: "\<forall>e\<in>set prior. score_of e = Some score \<longrightarrow> e \<in> set post \<and> e \<notin> set pre"
  proof (intro ballI impI)
    fix e assume e: "e \<in> set prior" and tie: "score_of e = Some score"
    have "\<not> score_gt e ?new"
      using tie by (simp add: score_gt_def score_of_new_entry flt_irrefl)
    then have "e \<notin> set pre"
      using above by blast
    moreover have "e \<in> set (pre @ post)"
      using e perm by (metis set_mset_mset)
    ultimately show "e \<in> set post \<and> e \<notin> set pre"
      by simp
  qed
  show "\<exists>pre post.
      submit lib now request st =
        Inr ((Json (JArr (take 10 (pre @ ?new # post))), 200, headers),
             st\<lparr>object_text := Some (json_dumps lib (JArr (take 10 (pre @ ?new # post)))),
                uploads := Suc (uploads st)\<rparr>)
      \<and> mset (pre @ post) = mset prior
      \<and> (\<forall>e\<in>set pre. score_gt e ?new)
      \<and> (\<forall>e\<in>set prior. score_of e = Some score \<longrightarrow> e \<in> set post \<and> e \<notin> set pre)"
    using run perm above ties by (intro exI conjI)
next
  assume loads: "json_loads lib text
      = Some (JArr [new_entry ''A'' (Finite 50) ta, new_entry ''B'' (Finite 40) tb])"
  have accepted: "submit_try lib (sample_post ''C'' ''50'') = Inr (''C'', Finite 50)"
    by (simp add: submit_try_def sample_post_def py_float_def lower_def is_digit_def decimal_def
        py_round_def fle_def)
  have srt: "py_sorted neg_score
      [new_entry ''C'' (Finite 50) now, new_entry ''A'' (Finite 50) ta, new_entry ''B'' (Finite 40) tb]
    = Inr [new_entry ''C'' (Finite 50) now, new_entry ''A'' (Finite 50) ta,
           new_entry ''B'' (Finite 40) tb]"
    by (simp add: py_sorted_def new_entry_def)
  show "submit lib now (sample_post ''C'' ''50'') st =
      Inr ((Json (JArr [new_entry ''C'' (Finite 50) now, new_entry ''A'' (Finite 50) ta,
                        new_entry ''B'' (Finite 40) tb]), 200, headers),
           st\<lparr>object_text :=
                Some (json_dumps lib
                  (JArr [new_entry ''C'' (Finite 50) now, new_entry ''A'' (Finite 50) ta,
                         new_entry ''B'' (Finite 40) tb])),
              uploads := Suc (uploads st)\<rparr>)"
    using submit_valid [OF accepted assms(1) loads srt assms(2)] by simp
qed

theorem submit_new_entry_before_ties_witness:
  "submit sample_runtime ''T'' (sample_post ''C'' ''50'') (sample_bucket sample_board) =
      Inr ((Json (JArr [new_entry ''C'' (Finite 50) ''T'', new_entry ''A'' (Finite 50) ''t1'',
                        new_entry ''B'' (Finite 40) ''t2'']), 200, headers),
           (sample_bucket sample_board)
             \<lparr>object_text :=
                Some (json_dumps sample_runtime
                  (JArr [new_entry ''C'' (Finite 50) ''T'', new_entry ''A'' (Finite 50) ''t1'',
                         new_entry ''B'' (Finite 40) ''t2''])),
              uploads := Suc (uploads (sample_bucket sample_board))\<rparr>)
   \<and> (\<exists>pre post.
        submit sample_runtime ''T'' (sample_post ''C'' ''50'') (sample_bucket sample_board) =
          Inr ((Json (JArr (take 10 (pre @ new_entry ''C'' (Finite 50) ''T'' # post))), 200, headers),
               (sample_bucket sample_board)
                 \<lparr>object_text :=
                    Some (json_dumps sample_runtime
                      (JArr (take 10 (pre @ new_entry ''C'' (Finite 50) ''T'' # post)))),
                  uploads := Suc (uploads (sample_bucket sample_board))\<rparr>)
        \<and> mset (pre @ post) = mset sample_board
        \<and> (\<forall>e\<in>set pre. score_gt e (new_entry ''C'' (Finite 50) ''T''))
        \<and> (\<forall>e\<in>set sample_board. score_of e = Some (Finite 50) \<longrightarrow> e \<in> set post \<and> e \<notin> set pre))"
proof -
  note both = submit_new_entry_before_ties
    [OF sample_read sample_allowed, where lib = sample_runtime and ta = "''t1''" and tb = "''t2''"
      and now = "''T''" and prior = sample_board and request = "sample_post ''C'' ''50''"
      and name = "''C''" and score = "Finite 50" and entries1 = sample_board]
  have loads: "json_loads sample_runtime (JArr sample_board)
      = Some (JArr [new_entry ''A'' (Finite 50) ''t1'', new_entry ''B'' (Finite 40) ''t2''])"
    by (simp add: sample_runtime_def sample_board_def)
  have valid: "submit_try sample_runtime (sample_post ''C'' ''50'') = Inr (''C'', Finite 50)
      \<and> Finite 50 \<noteq> NaN
      \<and> json_loads sample_runtime (JArr sample_board) = Some (JArr sample_board)
      \<and> (\<forall>e\<in>set sample_board. numeric_score e)"
    using sample_try sample_loads sample_board_numeric by simp
  show ?thesis
    using both [THEN conjunct2, THEN mp, OF loads] both [THEN conjunct1, THEN mp, OF valid]
    by (intro conjI)
qed

section \<open>Validation\<close>

text \<open>
  Claim C3. A submission is answered with status 400 and the body \<^verbatim>\<open>Bad request\<close>, and
  the bucket is left as it was (no upload is made), whenever the name is missing, empty
  or longer than 20 characters, or the score is missing, is not a number for \<^verbatim>\<open>float\<close>,
  or is, once rounded to one decimal place, \<^verbatim>\<open><= 0\<close> or \<^verbatim>\<open>> 100000\<close>.
\<close>

theorem submit_invalid_bad_request:
  assumes "args request ''name'' = None
      \<or> (\<exists>name. args request ''name'' = Some name \<and> (length name = 0 \<or> length name > 20))
      \<or> args request ''score'' = None
      \<or> (\<exists>s. args request ''score'' = Some s \<and> py_float lib s = None)
      \<or> (\<exists>s x. args request ''score'' = Some s \<and> py_float lib s = Some x
            \<and> (fle (py_round lib x) (Finite 0) \<or> flt (Finite 100000) (py_round lib x)))"
  shows "submit lib now request st = Inr ((Str ''Bad request'', 400, headers), st)"
proof -
  have "\<exists>e. submit_try lib request = Inl e"
    using assms by (auto simp add: submit_try_def Let_def split: option.splits)
  then show ?thesis
    by (auto simp add: submit_def bad_request_def)
qed

theorem submit_invalid_bad_request_witness:
  "submit sample_runtime ''T'' (sample_post '''' ''50'') (sample_bucket [])
      = Inr ((Str ''Bad request'', 400, headers), sample_bucket [])
   \<and> submit sample_runtime ''T'' (sample_post ''abcdefghijklmnopqrstu'' ''50'') (sample_bucket [])
      = Inr ((Str ''Bad request'', 400, headers), sample_bucket [])
   \<and> submit sample_runtime ''T'' (sample_post ''C'' ''fifty'') (sample_bucket [])
      = Inr ((Str ''Bad request'', 400, headers), sample_bucket [])
   \<and> submit sample_runtime ''T'' (sample_post ''C'' ''0'') (sample_bucket [])
      = Inr ((Str ''Bad request'', 400, headers), sample_bucket [])
   \<and> submit sample_runtime ''T'' (sample_post ''C'' ''-5'') (sample_bucket [])
      = Inr ((Str ''Bad request'', 400, headers), sample_bucket [])
   \<and> submit sample_runtime ''T'' (sample_post ''C'' ''100001'') (sample_bucket [])
      = Inr ((Str ''Bad request'', 400, headers), sample_bucket [])
   \<and> submit sample_runtime ''T'' (sample_post ''C'' ''inf'') (sample_bucket [])
      = Inr ((Str ''Bad request'', 400, headers), sample_bucket [])
   \<and> submit sample_runtime ''T'' ((sample_post ''C'' ''50'')\<lparr>args := [''name'' \<mapsto> ''C'']\<rparr>) (sample_bucket [])
      = Inr ((Str ''Bad request'', 400, headers), sample_bucket [])
   \<and> submit sample_runtime ''T'' ((sample_post ''C'' ''50'')\<lparr>args := [''score'' \<mapsto> ''50'']\<rparr>) (sample_bucket [])
      = Inr ((Str ''Bad request'', 400, headers), sample_bucket [])"
proof -
  note bad = submit_invalid_bad_request [of _ sample_runtime "''T''" "sample_bucket []"]
  have name_empty: "submit sample_runtime ''T'' (sample_post '''' ''50'') (sample_bucket [])
      = Inr ((Str ''Bad request'', 400, headers), sample_bucket [])"
    by (rule bad) (simp add: sample_post_def)
  have name_long: "submit sample_runtime ''T'' (sample_post ''abcdefghijklmnopqrstu'' ''50'') (sample_bucket [])
      = Inr ((Str ''Bad request'', 400, headers), sample_bucket [])"
    by (rule bad) (simp add: sample_post_def)
  have no_parse: "submit sample_runtime ''T'' (sample_post ''C'' ''fifty'') (sample_bucket [])
      = Inr ((Str ''Bad request'', 400, headers), sample_bucket [])"
    by (rule bad) (simp add: run_simps)
  have zero: "submit sample_runtime ''T'' (sample_post ''C'' ''0'') (sample_bucket [])
      = Inr ((Str ''Bad request'', 400, headers), sample_bucket [])"
    by (rule bad) (simp add: run_simps)
  have negative: "submit sample_runtime ''T'' (sample_post ''C'' ''-5'') (sample_bucket [])
      = Inr ((Str ''Bad request'', 400, headers), sample_bucket [])"
    by (rule bad) (simp add: run_simps)
  have large: "submit sample_runtime ''T'' (sample_post ''C'' ''100001'') (sample_bucket [])
      = Inr ((Str ''Bad request'', 400, headers), sample_bucket [])"
    by (rule bad) (simp add: run_simps)
  have infinite: "submit sample_runtime ''T'' (sample_post ''C'' ''inf'') (sample_bucket [])
      = Inr ((Str ''Bad request'', 400, headers), sample_bucket [])"
    by (rule bad) (simp add: run_simps)
  have no_score: "submit sample_runtime ''T'' ((sample_post ''C'' ''50'')\<lparr>args := [''name'' \<mapsto> ''C'']\<rparr>) (sample_bucket [])
      = Inr ((Str ''Bad request'', 400, headers), sample_bucket [])"
    by (rule bad) (simp add: sample_post_def)
  have no_name: "submit sample_runtime ''T'' ((sample_post ''C'' ''50'')\<lparr>args := [''score'' \<mapsto> ''50'']\<rparr>) (sample_bucket [])
      = Inr ((Str ''Bad request'', 400, headers), sample_bucket [])"
    by (rule bad) (simp add: sample_post_def)
  show ?thesis
    using name_empty name_long no_parse zero negative large infinite no_score no_name
    by (intro conjI)
qed

text \<open>
  The scores that pass the validation: the numbers \<open>x\<close> with \<open>0 < x \<le> 100000\<close>, and
  \<open>NaN\<close>, for which \<^verbatim>\<open>score <= 0\<close> and \<^verbatim>\<open>score > 100000\<close> are both false.
\<close>

lemma submit_try_score_range:
  assumes "submit_try lib request = Inr (name, score)"
  shows "score = NaN \<or> (flt (Finite 0) score \<and> fle score (Finite 100000))"
proof -
  have "\<not> fle score (Finite 0)" and "\<not> flt (Finite 100000) score"
    using assms by (auto simp add: submit_try_def Let_def split: option.splits if_splits)
  then show ?thesis
    by (cases score) (auto simp add: fle_def)
qed

lemma submit_try_accepts_100000:
  "submit_try lib (sample_post ''C'' ''100000'') = Inr (''C'', Finite 100000)"
  by (simp add: submit_try_def sample_post_def py_float_def lower_def is_digit_def decimal_def
      py_round_def fle_def)

lemma submit_try_nan: "submit_try lib (sample_post ''x'' ''nan'') = Inr (''x'', NaN)"
  by (simp add: submit_try_def sample_post_def py_float_def lower_def py_round_def fle_def)

section \<open>The range of accepted scores\<close>

text \<open>
  Claim C4 says that the accepted scores are, after rounding, those strictly greater than
  0 and at most 100000. The handler also accepts the score \<^verbatim>\<open>nan\<close>: \<^verbatim>\<open>float("nan")\<close> is
  \<open>NaN\<close>, \<^verbatim>\<open>round\<close> leaves it, and neither comparison of the validation holds of it. The
  entry is stored with the score \<open>NaN\<close> and the answer has status 200.
\<close>

theorem submit_accepts_nan:
  "submit_try lib (sample_post ''x'' ''nan'') = Inr (''x'', NaN)
   \<and> submit sample_runtime ''T'' (sample_post ''x'' ''nan'') (sample_bucket []) =
      Inr ((Json (JArr [new_entry ''x'' NaN ''T'']), 200, headers),
           \<lparr>object_text = Some (JArr [new_entry ''x'' NaN ''T'']), unreachable = False,
            upload_denied = False, uploads = 1\<rparr>)"
proof
  show "submit_try lib (sample_post ''x'' ''nan'') = Inr (''x'', NaN)"
    by (rule submit_try_nan)
  have srt: "py_sorted neg_score (new_entry ''x'' NaN ''T'' # []) = Inr [new_entry ''x'' NaN ''T'']"
    by (simp add: py_sorted_def new_entry_def)
  show "submit sample_runtime ''T'' (sample_post ''x'' ''nan'') (sample_bucket []) =
      Inr ((Json (JArr [new_entry ''x'' NaN ''T'']), 200, headers),
           \<lparr>object_text = Some (JArr [new_entry ''x'' NaN ''T'']), unreachable = False,
            upload_denied = False, uploads = 1\<rparr>)"
    using submit_valid [OF submit_try_nan sample_read sample_loads srt sample_allowed]
    by (simp add: sample_bucket_def sample_runtime_def)
qed

section \<open>The steps of a submission\<close>



section \<open>Routing\<close>

text \<open>
  Claim C6. A request whose path is not \<^verbatim>\<open>/\<close> and that is not a \<^verbatim>\<open>POST\<close> to \<^verbatim>\<open>/submit\<close>
  (any other path, or \<^verbatim>\<open>/submit\<close> with another method) is answered with status 400 and
  the body \<^verbatim>\<open>Bad request\<close>, and the bucket is left as it was: no upload is made.
\<close>

theorem main_other_route_bad_request:
  assumes "path request \<noteq> ''/''"
    and "\<not> (path request = ''/submit'' \<and> http_method request = ''POST'')"
  shows "main lib now request st = Inr ((Str ''Bad request'', 400, headers), st)"
  using assms by (auto simp add: main_def bad_request_def)

theorem main_other_route_bad_request_witness:
  "path (sample_post ''C'' ''50''\<lparr>path := ''/foo''\<rparr>) \<noteq> ''/''
   \<and> main sample_runtime ''T'' (sample_post ''C'' ''50''\<lparr>path := ''/foo''\<rparr>) (sample_bucket [])
       = Inr ((Str ''Bad request'', 400, headers), sample_bucket [])
   \<and> http_method (sample_post ''C'' ''50''\<lparr>http_method := ''GET''\<rparr>) \<noteq> ''POST''
   \<and> main sample_runtime ''T'' (sample_post ''C'' ''50''\<lparr>http_method := ''GET''\<rparr>) (sample_bucket [])
       = Inr ((Str ''Bad request'', 400, headers), sample_bucket [])"
  using main_other_route_bad_request
      [of "sample_post ''C'' ''50''\<lparr>path := ''/foo''\<rparr>" sample_runtime "''T''" "sample_bucket []"]
    main_other_route_bad_request
      [of "sample_post ''C'' ''50''\<lparr>http_method := ''GET''\<rparr>" sample_runtime "''T''" "sample_bucket []"]
  by (simp add: sample_post_def)

section \<open>Where the parameters are read\<close>

text \<open>
  Claim C7 says that a submission with form-encoded parameters is processed like one with
  query parameters. The handler reads \<^verbatim>\<open>request.args\<close> only: the same name and score are
  rejected when they come in the form and accepted when they come in the query string.
\<close>

theorem form_encoded_submission_rejected:
  "main sample_runtime ''T''
      ((sample_post ''C'' ''50'')
         \<lparr>args := Map.empty, form := [''name'' \<mapsto> ''C'', ''score'' \<mapsto> ''50'']\<rparr>)
      (sample_bucket sample_board) =
      Inr ((Str ''Bad request'', 400, headers), sample_bucket sample_board)
   \<and> main sample_runtime ''T'' (sample_post ''C'' ''50'') (sample_bucket sample_board) =
      Inr ((Json (JArr (new_entry ''C'' (Finite 50) ''T'' # sample_board)), 200, headers),
           \<lparr>object_text = Some (JArr (new_entry ''C'' (Finite 50) ''T'' # sample_board)),
            unreachable = False, upload_denied = False, uploads = 1\<rparr>)"
proof
  show "main sample_runtime ''T''
      ((sample_post ''C'' ''50'')
         \<lparr>args := Map.empty, form := [''name'' \<mapsto> ''C'', ''score'' \<mapsto> ''50'']\<rparr>)
      (sample_bucket sample_board) =
      Inr ((Str ''Bad request'', 400, headers), sample_bucket sample_board)"
    by (simp add: main_def submit_def submit_try_def sample_post_def bad_request_def)
  have srt: "py_sorted neg_score (new_entry ''C'' (Finite 50) ''T'' # sample_board)
      = Inr (new_entry ''C'' (Finite 50) ''T'' # sample_board)"
    by (simp add: py_sorted_def new_entry_def sample_board_def)
  have route: "main sample_runtime ''T'' (sample_post ''C'' ''50'') (sample_bucket sample_board)
      = submit sample_runtime ''T'' (sample_post ''C'' ''50'') (sample_bucket sample_board)"
    by (simp add: main_def sample_post_def)
  have three: "take 10 (new_entry ''C'' (Finite 50) ''T'' # sample_board)
      = new_entry ''C'' (Finite 50) ''T'' # sample_board"
    by (simp add: sample_board_def)
  show "main sample_runtime ''T'' (sample_post ''C'' ''50'') (sample_bucket sample_board) =
      Inr ((Json (JArr (new_entry ''C'' (Finite 50) ''T'' # sample_board)), 200, headers),
           \<lparr>object_text = Some (JArr (new_entry ''C'' (Finite 50) ''T'' # sample_board)),
            unreachable = False, upload_denied = False, uploads = 1\<rparr>)"
    using submit_valid [OF sample_try sample_read sample_loads srt sample_allowed]
    by (simp only: route three) (simp add: sample_bucket_def sample_runtime_def)
qed

text \<open>
  Claim C7, amended. The name and the score of a submission are read from the query
  parameters only. The form-encoded parameters of a request change nothing about its
  answer or its effect, and a \<^verbatim>\<open>POST\<close> to \<^verbatim>\<open>/submit\<close> without \<^verbatim>\<open>name\<close> or \<^verbatim>\<open>score\<close> in the
  query parameters is answered with status 400 and \<^verbatim>\<open>Bad request\<close>, with the bucket left
  as it was.
\<close>

theorem main_reads_query_parameters_only:
  "main lib now (request\<lparr>form := f\<rparr>) st = main lib now request st
   \<and> (path request = ''/submit'' \<and> http_method request = ''POST''
        \<and> (args request ''name'' = None \<or> args request ''score'' = None)
      \<longrightarrow> main lib now request st = Inr ((Str ''Bad request'', 400, headers), st))"
proof (intro conjI impI)
  have same_args: "args (request\<lparr>form := f\<rparr>) = args request"
    by simp
  have "submit_try lib (request\<lparr>form := f\<rparr>) = submit_try lib request"
    unfolding submit_try_def same_args ..
  then have "submit lib now (request\<lparr>form := f\<rparr>) st = submit lib now request st"
    by (simp only: submit_def)
  then show "main lib now (request\<lparr>form := f\<rparr>) st = main lib now request st"
    by (simp add: main_def)
  assume post: "path request = ''/submit'' \<and> http_method request = ''POST''
      \<and> (args request ''name'' = None \<or> args request ''score'' = None)"
  then have "\<exists>e. submit_try lib request = Inl e"
    by (auto simp add: submit_try_def split: option.splits)
  then show "main lib now request st = Inr ((Str ''Bad request'', 400, headers), st)"
    using post by (auto simp add: main_def submit_def bad_request_def)
qed

theorem main_reads_query_parameters_only_witness:
  "main sample_runtime ''T''
      ((sample_post ''C'' ''50'')
         \<lparr>args := Map.empty, form := [''name'' \<mapsto> ''C'', ''score'' \<mapsto> ''50'']\<rparr>)
      (sample_bucket sample_board) =
      Inr ((Str ''Bad request'', 400, headers), sample_bucket sample_board)
   \<and> main sample_runtime ''T''
      ((sample_post ''C'' ''50'')\<lparr>form := [''name'' \<mapsto> ''D'', ''score'' \<mapsto> ''99'']\<rparr>)
      (sample_bucket sample_board) =
     main sample_runtime ''T'' (sample_post ''C'' ''50'') (sample_bucket sample_board)"
proof -
  let ?form_only = "(sample_post ''C'' ''50'')
      \<lparr>args := Map.empty, form := [''name'' \<mapsto> ''C'', ''score'' \<mapsto> ''50'']\<rparr>"
  have post: "path ?form_only = ''/submit'' \<and> http_method ?form_only = ''POST''
      \<and> (args ?form_only ''name'' = None \<or> args ?form_only ''score'' = None)"
    by (simp add: sample_post_def)
  show ?thesis
    using main_reads_query_parameters_only [THEN conjunct2, THEN mp, OF post]
      main_reads_query_parameters_only [THEN conjunct1]
    by (intro conjI)
qed

section \<open>The round trip through the stored text\<close>

text \<open>
  Claim C8. For every leaderboard, a sequence of entries with name, score and timestamp,
  \<^verbatim>\<open>json.loads\<close> of the text that \<^verbatim>\<open>json.dumps\<close> makes of it is the leaderboard again: the
  same entries with the same names, scores and timestamps, in the same order. Hence
  what \<^verbatim>\<open>write_storage\<close> has stored, \<^verbatim>\<open>read_storage\<close> and \<^verbatim>\<open>json.loads\<close> give back. The names
  and timestamps are any strings, with quotes, backslashes and control characters; the
  scores are any numbers that Python reads back from their own text, as it documents of
  \<^verbatim>\<open>repr\<close>, and the special values. A score \<open>NaN\<close>, which \<^verbatim>\<open>submit\<close> lets through, is
  written \<^verbatim>\<open>NaN\<close> and read as \<open>NaN\<close> again; it is the same score, although Python's
  \<^verbatim>\<open>==\<close> is false of any two \<open>NaN\<close>.
\<close>

theorem leaderboard_round_trip:
  assumes "\<forall>row\<in>set rows. reads_back number_repr lib (fst (snd row))"
  shows "json_loads (with_json number_repr lib)
        (json_dumps (with_json number_repr lib) (leaderboard rows)) = Some (leaderboard rows)
    \<and> (\<forall>st st'. write_storage (with_json number_repr lib) (leaderboard rows) st = Inr st' \<longrightarrow>
          (\<exists>text. read_storage st' = Inr text
            \<and> json_loads (with_json number_repr lib) text = Some (leaderboard rows)))"
proof -
  have loads: "json_loads (with_json number_repr lib)
      (json_dumps (with_json number_repr lib) (leaderboard rows)) = Some (leaderboard rows)"
    using loads_dumps_rows [OF assms] by (simp add: with_json_def)
  have "\<exists>text. read_storage st' = Inr text
      \<and> json_loads (with_json number_repr lib) text = Some (leaderboard rows)"
    if "write_storage (with_json number_repr lib) (leaderboard rows) st = Inr st'"
    for st st' :: "string storage"
  proof -
    from that have "unreachable st' = False"
      and "object_text st' = Some (json_dumps (with_json number_repr lib) (leaderboard rows))"
      by (auto simp add: write_storage_def Let_def split: if_splits)
    then have "read_storage st' = Inr (json_dumps (with_json number_repr lib) (leaderboard rows))"
      by (simp add: read_storage_def)
    then show ?thesis
      using loads by (intro exI conjI)
  qed
  then show ?thesis
    using loads by (intro conjI allI impI)
qed

theorem leaderboard_round_trip_witness:
  "json_dumps sample_json_runtime (JArr sample_board) = sample_text
    \<and> json_loads sample_json_runtime sample_text = Some (JArr sample_board)
    \<and> write_storage sample_json_runtime (JArr sample_board) sample_text_bucket
        = Inr (sample_text_bucket\<lparr>object_text := Some sample_text, uploads := 1\<rparr>)
    \<and> read_storage (sample_text_bucket\<lparr>object_text := Some sample_text, uploads := 1\<rparr>)
        = Inr sample_text"
proof -
  from leaderboard_round_trip [OF sample_rows_read_back]
  have "json_loads sample_json_runtime
        (json_dumps sample_json_runtime (leaderboard sample_rows)) = Some (leaderboard sample_rows)"
    unfolding sample_json_runtime_def by (rule conjunct1)
  then have loads: "json_loads sample_json_runtime sample_text = Some (JArr sample_board)"
    by (simp only: sample_rows_text) (simp only: sample_rows_board)
  have dumps: "json_dumps sample_json_runtime (JArr sample_board) = sample_text"
    using sample_rows_text unfolding sample_rows_board .
  have written: "write_storage sample_json_runtime (JArr sample_board) sample_text_bucket
      = Inr (sample_text_bucket\<lparr>object_text := Some sample_text, uploads := 1\<rparr>)"
    by (simp add: write_storage_def dumps) (simp add: sample_text_bucket_def)
  have read: "read_storage (sample_text_bucket\<lparr>object_text := Some sample_text, uploads := 1\<rparr>)
      = Inr sample_text"
    by (simp add: read_storage_def sample_text_bucket_def)
  show ?thesis
    using dumps loads written read by (intro conjI)
qed

section \<open>Storage failures\<close>

text \<open>
  Claim C9. When reading or writing the bucket fails, neither handler turns the failure
  into an answer: the exception leaves \<^verbatim>\<open>list_highscores\<close>, \<^verbatim>\<open>submit\<close> and \<^verbatim>\<open>main\<close>. An
  answer of \<^verbatim>\<open>submit\<close> with status 400 comes from the validation only, and
  \<^verbatim>\<open>list_highscores\<close> never answers 400.
\<close>

theorem storage_failure_propagates:
  "(read_storage st = Inl e \<longrightarrow> list_highscores st = Inl e)
   \<and> (read_storage st = Inl e \<and> path request = ''/'' \<longrightarrow> main lib now request st = Inl e)
   \<and> (submit_try lib request = Inr (name, score) \<and> read_storage st = Inl e
        \<longrightarrow> submit lib now request st = Inl e)
   \<and> (submit_try lib request = Inr (name, score) \<and> read_storage st = Inr text
        \<and> json_loads lib text = Some (JArr prior)
        \<and> py_sorted neg_score (new_entry name score now # prior) = Inr sorted_data
        \<and> write_storage lib (JArr (take 10 sorted_data)) st = Inl e
        \<longrightarrow> submit lib now request st = Inl e)
   \<and> (submit lib now request st = Inr ((content, 400, hs), st')
        \<longrightarrow> (\<exists>err. submit_try lib request = Inl err))
   \<and> list_highscores st \<noteq> Inr ((content, 400, hs), st')"
proof (intro conjI impI)
  show "list_highscores st = Inl e" if "read_storage st = Inl e"
    using that by (simp add: list_highscores_def)
  show "main lib now request st = Inl e" if "read_storage st = Inl e \<and> path request = ''/''"
    using that by (simp add: main_def list_highscores_def)
  show "submit lib now request st = Inl e"
    if "submit_try lib request = Inr (name, score) \<and> read_storage st = Inl e"
    using that by (simp add: submit_def)
  show "submit lib now request st = Inl e"
    if "submit_try lib request = Inr (name, score) \<and> read_storage st = Inr text
        \<and> json_loads lib text = Some (JArr prior)
        \<and> py_sorted neg_score (new_entry name score now # prior) = Inr sorted_data
        \<and> write_storage lib (JArr (take 10 sorted_data)) st = Inl e"
    using that by (simp add: submit_def)
  show "\<exists>err. submit_try lib request = Inl err"
    if "submit lib now request st = Inr ((content, 400, hs), st')"
  proof (cases "submit_try lib request")
    case (Inl err)
    then show ?thesis by blast
  next
    case (Inr accepted)
    then show ?thesis
      using that
      by (auto simp add: submit_def split: sum.splits option.splits json.splits prod.splits)
  qed
  show "list_highscores st \<noteq> Inr ((content, 400, hs), st')"
    by (auto simp add: list_highscores_def split: sum.splits)
qed

theorem storage_failure_propagates_witness:
  "list_highscores ((sample_bucket sample_board)\<lparr>object_text := None\<rparr>) = Inl NotFound
   \<and> main sample_runtime ''T'' ((sample_post ''C'' ''50'')\<lparr>path := ''/''\<rparr>)
        ((sample_bucket sample_board)\<lparr>unreachable := True\<rparr>) = Inl StorageError
   \<and> submit sample_runtime ''T'' (sample_post ''C'' ''50'')
        ((sample_bucket sample_board)\<lparr>object_text := None\<rparr>) = Inl NotFound
   \<and> submit sample_runtime ''T'' (sample_post ''C'' ''50'')
        ((sample_bucket sample_board)\<lparr>upload_denied := True\<rparr>) = Inl StorageError
   \<and> (\<exists>err. submit_try sample_runtime (sample_post '''' ''50'') = Inl err)"
proof -
  let ?missing = "(sample_bucket sample_board)\<lparr>object_text := None\<rparr>"
  let ?down = "(sample_bucket sample_board)\<lparr>unreachable := True\<rparr>"
  let ?denied = "(sample_bucket sample_board)\<lparr>upload_denied := True\<rparr>"
  have missing: "read_storage ?missing = Inl NotFound"
    by (simp add: read_storage_def sample_bucket_def)
  have down: "read_storage ?down = Inl StorageError \<and> path ((sample_post ''C'' ''50'')\<lparr>path := ''/''\<rparr>) = ''/''"
    by (simp add: read_storage_def sample_bucket_def)
  have try_missing: "submit_try sample_runtime (sample_post ''C'' ''50'') = Inr (''C'', Finite 50)
      \<and> read_storage ?missing = Inl NotFound"
    using sample_try missing by simp
  have srt: "py_sorted neg_score (new_entry ''C'' (Finite 50) ''T'' # sample_board)
      = Inr (new_entry ''C'' (Finite 50) ''T'' # sample_board)"
    by (simp add: py_sorted_def new_entry_def sample_board_def)
  have write_denied: "submit_try sample_runtime (sample_post ''C'' ''50'') = Inr (''C'', Finite 50)
      \<and> read_storage ?denied = Inr (JArr sample_board)
      \<and> json_loads sample_runtime (JArr sample_board) = Some (JArr sample_board)
      \<and> py_sorted neg_score (new_entry ''C'' (Finite 50) ''T'' # sample_board)
          = Inr (new_entry ''C'' (Finite 50) ''T'' # sample_board)
      \<and> write_storage sample_runtime
          (JArr (take 10 (new_entry ''C'' (Finite 50) ''T'' # sample_board))) ?denied
          = Inl StorageError"
    using sample_try sample_loads srt
    by (simp add: read_storage_def write_storage_def sample_bucket_def)
  have refused: "submit sample_runtime ''T'' (sample_post '''' ''50'') (sample_bucket sample_board)
      = Inr ((Str ''Bad request'', 400, headers), sample_bucket sample_board)"
    by (simp add: submit_def submit_try_def sample_post_def bad_request_def)
  note c1 = storage_failure_propagates [THEN conjunct1, THEN mp, OF missing]
  note c2 = storage_failure_propagates [THEN conjunct2, THEN conjunct1, THEN mp, OF down]
  note c3 = storage_failure_propagates
    [THEN conjunct2, THEN conjunct2, THEN conjunct1, THEN mp, OF try_missing]
  note c4 = storage_failure_propagates
    [THEN conjunct2, THEN conjunct2, THEN conjunct2, THEN conjunct1, THEN mp, OF write_denied]
  note c5 = storage_failure_propagates
    [THEN conjunct2, THEN conjunct2, THEN conjunct2, THEN conjunct2, THEN conjunct1, THEN mp,
     OF refused]
  show ?thesis
    using c1 c2 [of sample_runtime "''T''"] c3 [of "''T''"] c4 c5 by (intro conjI)
qed

section \<open>The entries of the result\<close>

text \<open>
  Claim C10 says that the resulting list always consists of the new entry and persisted
  entries. It does not when ten persisted entries have a higher score: the new entry is
  sorted to the eleventh place and cut off, and the list written back is the persisted
  list.
\<close>

theorem submit_full_board_drops_new_entry:
  "submit sample_runtime ''T'' (sample_post ''C'' ''5'') (sample_bucket sample_full_board) =
      Inr ((Json (JArr sample_full_board), 200, headers),
           \<lparr>object_text = Some (JArr sample_full_board), unreachable = False,
            upload_denied = False, uploads = 1\<rparr>)
   \<and> length sample_full_board = 10
   \<and> new_entry ''C'' (Finite 5) ''T'' \<notin> set sample_full_board"
proof -
  have accepted: "submit_try sample_runtime (sample_post ''C'' ''5'') = Inr (''C'', Finite 5)"
    by (simp add: run_simps)
  have srt: "py_sorted neg_score (new_entry ''C'' (Finite 5) ''T'' # sample_full_board)
      = Inr (sample_full_board @ [new_entry ''C'' (Finite 5) ''T''])"
    by (simp add: py_sorted_def new_entry_def sample_full_board_def)
  have "submit sample_runtime ''T'' (sample_post ''C'' ''5'') (sample_bucket sample_full_board) =
      Inr ((Json (JArr (take 10 (sample_full_board @ [new_entry ''C'' (Finite 5) ''T'']))), 200, headers),
           (sample_bucket sample_full_board)
             \<lparr>object_text := Some (json_dumps sample_runtime
                  (JArr (take 10 (sample_full_board @ [new_entry ''C'' (Finite 5) ''T''])))),
              uploads := Suc (uploads (sample_bucket sample_full_board))\<rparr>)"
    using accepted sample_read sample_loads srt sample_allowed by (rule submit_valid)
  moreover have len: "length sample_full_board = 10"
    by (simp add: sample_full_board_def)
  moreover have "new_entry ''C'' (Finite 5) ''T'' \<notin> set sample_full_board"
    by (simp add: sample_full_board_def new_entry_def)
  ultimately show ?thesis
    by (simp add: sample_bucket_def sample_runtime_def)
qed

text \<open>
  Claim C10, amended. For a valid submission against a persisted list of \<open>n\<close> entries the
  resulting list has exactly \<open>min (n + 1) 10\<close> elements, each of them the new entry or a
  persisted entry, unchanged and no more often than it occurs there. The new entry is
  among them when fewer than ten persisted entries have a strictly greater score. When
  \<open>n < 10\<close> the result holds the new entry and every persisted entry, so an entry with the
  same name is neither replaced nor updated.
\<close>

theorem submit_result_entries:
  assumes "submit_try lib request = Inr (name, score)" and "score \<noteq> NaN"
    and "read_storage st = Inr text" and "json_loads lib text = Some (JArr prior)"
    and "\<forall>e\<in>set prior. numeric_score e" and "\<not> upload_denied st"
  shows "\<exists>data.
      submit lib now request st =
        Inr ((Json (JArr data), 200, headers),
             st\<lparr>object_text := Some (json_dumps lib (JArr data)), uploads := Suc (uploads st)\<rparr>)
      \<and> length data = min (length prior + 1) 10
      \<and> mset data \<subseteq># mset (new_entry name score now # prior)
      \<and> (length (filter (\<lambda>e. score_gt e (new_entry name score now)) prior) < 10
          \<longrightarrow> new_entry name score now \<in> set data)
      \<and> (length prior < 10 \<longrightarrow> mset data = mset (new_entry name score now # prior))"
proof -
  let ?new = "new_entry name score now"
  from submit_inserts [OF assms, of now]
  obtain pre post where
    run: "submit lib now request st =
        Inr ((Json (JArr (take 10 (pre @ ?new # post))), 200, headers),
             st\<lparr>object_text := Some (json_dumps lib (JArr (take 10 (pre @ ?new # post)))),
                uploads := Suc (uploads st)\<rparr>)"
    and perm: "mset (pre @ post) = mset prior"
    and above: "\<forall>e\<in>set pre. score_gt e ?new"
    and ordered: "sorted_wrt score_ge (pre @ ?new # post)"
    and stable: "\<forall>c. filter (\<lambda>e. score_of e = Some c) (pre @ ?new # post)
             = filter (\<lambda>e. score_of e = Some c) (?new # prior)"
    by (elim exE conjE)
  let ?all = "pre @ ?new # post"
  have "mset ?all = add_mset ?new (mset (pre @ post))"
    by simp
  then have all: "mset ?all = mset (?new # prior)"
    by (simp only: perm mset.simps)
  then have "length ?all = length (?new # prior)"
    by (rule mset_eq_length)
  then have len: "length (take 10 ?all) = min (length prior + 1) 10"
    by simp
  have sub: "mset (take 10 ?all) \<subseteq># mset (?new # prior)"
    using mset_take_subset [of 10 ?all] by (simp only: all)
  have early: "?new \<in> set (take 10 ?all)"
    if "length (filter (\<lambda>e. score_gt e ?new) prior) < 10"
  proof -
    have "length pre \<le> length (filter (\<lambda>e. score_gt e ?new) prior)"
      using perm above by (rule length_le_count)
    then have "length pre < 10"
      using that by simp
    then show ?thesis
      by (rule take_contains_early)
  qed
  have short: "mset (take 10 ?all) = mset (?new # prior)" if "length prior < 10"
  proof -
    have "length ?all \<le> 10"
      using \<open>length ?all = length (?new # prior)\<close> that by simp
    then have "take 10 ?all = ?all"
      by simp
    then show ?thesis
      using all by simp
  qed
  show ?thesis
    using run len sub early short by (intro exI conjI impI)
qed

theorem submit_result_entries_witness:
  "\<exists>data.
      submit sample_runtime ''T'' (sample_post ''C'' ''50'') (sample_bucket sample_board) =
        Inr ((Json (JArr data), 200, headers),
             (sample_bucket sample_board)
               \<lparr>object_text := Some (json_dumps sample_runtime (JArr data)),
                uploads := Suc (uploads (sample_bucket sample_board))\<rparr>)
      \<and> length data = 3
      \<and> new_entry ''C'' (Finite 50) ''T'' \<in> set data
      \<and> mset data = mset (new_entry ''C'' (Finite 50) ''T'' # sample_board)"
proof -
  have number: "Finite 50 \<noteq> NaN"
    by simp
  from submit_result_entries
    [OF sample_try number sample_read sample_loads sample_board_numeric sample_allowed, of "''T''"]
  obtain data where
    run: "submit sample_runtime ''T'' (sample_post ''C'' ''50'') (sample_bucket sample_board) =
        Inr ((Json (JArr data), 200, headers),
             (sample_bucket sample_board)
               \<lparr>object_text := Some (json_dumps sample_runtime (JArr data)),
                uploads := Suc (uploads (sample_bucket sample_board))\<rparr>)"
    and len: "length data = min (length sample_board + 1) 10"
    and sub: "mset data \<subseteq># mset (new_entry ''C'' (Finite 50) ''T'' # sample_board)"
    and early: "length (filter (\<lambda>e. score_gt e (new_entry ''C'' (Finite 50) ''T'')) sample_board) < 10
          \<longrightarrow> new_entry ''C'' (Finite 50) ''T'' \<in> set data"
    and short: "length sample_board < 10
          \<longrightarrow> mset data = mset (new_entry ''C'' (Finite 50) ''T'' # sample_board)"
    by (elim exE conjE)
  have two: "length sample_board = 2"
    by (simp add: sample_board_def)
  have "length (filter (\<lambda>e. score_gt e (new_entry ''C'' (Finite 50) ''T'')) sample_board) \<le> 2"
    using two length_filter_le [of _ sample_board] by (simp only:)
  then have "new_entry ''C'' (Finite 50) ''T'' \<in> set data"
    using early by simp
  moreover have "length data = 3"
    using len two by simp
  moreover have "mset data = mset (new_entry ''C'' (Finite 50) ''T'' # sample_board)"
    using short two by simp
  ultimately show ?thesis
    using run by (intro exI conjI)
qed

end
